theory Spec2Isabelle
  imports Complex_Main "HOL-Library.Word"
begin

unbundle bit_operations_syntax

section \<open>Shared conventions\<close>

text \<open>
  Go's \<open>int64\<close>, \<open>uint64\<close>, \<open>int32\<close> and \<open>byte\<close> are machine words of that width;
  signed comparisons are \<open>\<le>s\<close> and \<open><s\<close>, and \<open>+\<close> wraps as in Go. A Go \<open>error\<close>
  return and a Go panic are both values of the type \<open>failure\<close>: an error carries the
  place that produced it, a panic is kept apart because no caller in the repository
  recovers from it.
\<close>

type_synonym int64 = "64 word"
type_synonym uint64 = "64 word"
type_synonym int32 = "32 word"
type_synonym byte = "8 word"

datatype failure = Err string | Panic string

section \<open>Query replication workflow state (\<open>src/unnamed/part_001\<close>, \<open>part_002\<close>)\<close>

text \<open>
  The protobuf messages \<open>QRepPartition\<close>, \<open>QRepFlowState\<close> and \<open>QRepConfig\<close> and the enum
  \<open>FlowStatus\<close> are generated code that is not among the sources; the records below hold
  the fields the workflow files read and write. \<open>FlowStatus\<close> is a protobuf enum, so its
  zero value is the first constructor; the workflow files name only \<open>STATUS_RUNNING\<close> and
  \<open>STATUS_PAUSED\<close>, every other number is \<open>STATUS_OTHER\<close>.
\<close>

datatype FlowStatus = STATUS_UNKNOWN | STATUS_RUNNING | STATUS_PAUSED | STATUS_OTHER int32

record IntPartitionRange =
  Start :: int64
  End :: int64

record QRepPartition =
  PartitionId :: string
  Range' :: "IntPartitionRange option"

text \<open>
  \<open>Range'\<close> is the message's field \<open>Range\<close>, primed because HOL has a constant of that
  name; \<open>None\<close> is Go's \<open>nil\<close>. Of the range variants only the integer one is built in
  the workflow files.
\<close>

record QRepFlowState =
  LastPartition :: QRepPartition
  NumPartitionsProcessed :: uint64
  NeedsResync :: bool
  DisableWaitForNewRows :: bool
  CurrentFlowStatus :: FlowStatus

record QRepConfig =
  FlowJobName :: string
  DestinationTableIdentifier :: string
  DstTableFullResync :: bool
  InitialCopyOnly :: bool
  MaxParallelWorkers :: "32 word"

text \<open>
  \<open>NewQRepFlowState\<close> takes no argument: the literal it returns does not depend on the
  configuration. Fields the literal leaves out have Go's zero value.
\<close>

definition NewQRepFlowState :: QRepFlowState where
  "NewQRepFlowState =
     \<lparr> LastPartition = \<lparr> PartitionId = ''not-applicable-partition'', Range' = None \<rparr>,
       NumPartitionsProcessed = 0,
       NeedsResync = True,
       DisableWaitForNewRows = False,
       CurrentFlowStatus = STATUS_RUNNING \<rparr>"

definition NewQRepFlowStateForTesting :: QRepFlowState where
  "NewQRepFlowStateForTesting =
     \<lparr> LastPartition = \<lparr> PartitionId = ''not-applicable-partition'', Range' = None \<rparr>,
       NumPartitionsProcessed = 0,
       NeedsResync = True,
       DisableWaitForNewRows = True,
       CurrentFlowStatus = STATUS_UNKNOWN \<rparr>"

text \<open>
  \<open>handleTableCreationForResync\<close> is where the configuration meets the flag: the shadow
  table is created, and the configuration's destination renamed to it, only when the state
  asks for a resync and the configuration has \<open>DstTableFullResync\<close>. The activity
  \<open>CreateTablesFromExisting\<close> runs outside the workflow; \<open>activity_ok\<close> is whether it
  succeeded.
\<close>

definition handleTableCreationForResync ::
  "bool \<Rightarrow> QRepConfig \<Rightarrow> QRepFlowState \<Rightarrow> failure + QRepConfig" where
  "handleTableCreationForResync activity_ok config state =
     (if NeedsResync state \<and> DstTableFullResync config then
        (let renamedTableIdentifier = DestinationTableIdentifier config @ ''_peerdb_resync'' in
         if \<not> activity_ok then Inl (Err ''failed to create table for mirror resync'')
         else Inr (config\<lparr>DestinationTableIdentifier := renamedTableIdentifier\<rparr>))
      else Inr config)"

subsection \<open>Partition chunking in \<open>processPartitions\<close>\<close>

text \<open>
  Modelled from the spec: \<open>shared.DivCeil\<close> is called by \<open>processPartitions\<close> but is not
  among the sources; the spec calls the chunk size a ceiling division. Lengths and worker
  counts are natural numbers here; in Go a zero divisor panics, in HOL the quotient is 0,
  and \<open>processPartitions\<close> below turns a zero chunk size into the panic Go raises.
\<close>

definition DivCeil :: "nat \<Rightarrow> nat \<Rightarrow> nat" where
  "DivCeil x y = (x + y - 1) div y"

text \<open>
  \<open>QRepFlowWorkflow\<close> passes 16 workers unless the configuration has a positive count.
\<close>

definition maxParallelWorkers :: "QRepConfig \<Rightarrow> nat" where
  "maxParallelWorkers config =
     (if 0 < MaxParallelWorkers config then unat (MaxParallelWorkers config) else 16)"

record QRepPartitionBatch =
  Partitions :: "QRepPartition list"
  BatchId :: int32

text \<open>
  The loop \<open>for i := 0; i < len(partitions); i += chunkSize\<close>, appending the slice
  \<open>partitions[i:min(i+chunkSize, len(partitions))]\<close>. With \<open>chunkSize = 0\<close> the Go loop
  would not advance; the function is only called after the division by \<open>chunkSize\<close> has
  succeeded, and returns no batch otherwise.
\<close>

function batches_loop :: "nat \<Rightarrow> nat \<Rightarrow> 'a list \<Rightarrow> 'a list list" where
  "batches_loop chunkSize i partitions =
     (if i < length partitions \<and> 0 < chunkSize then
        (let end = min (i + chunkSize) (length partitions) in
         take (end - i) (drop i partitions) # batches_loop chunkSize (i + chunkSize) partitions)
      else [])"
  by pat_completeness auto
termination
  by (relation "measure (\<lambda>(chunkSize, i, partitions). length partitions - i)") auto

declare batches_loop.simps [simp del]

text \<open>
  \<open>processPartitions\<close>: the chunk size, the capacity \<open>len(partitions)/chunkSize+1\<close> (an
  integer division, which panics when the chunk size is 0), the batches, one child
  workflow per batch numbered from 1, and the wait for all of them. A child workflow runs
  outside this function: \<open>child_ok\<close> says whether waiting for it succeeds. The result is
  the list of batches handed to child workflows and the error returned, if any.
\<close>

definition processPartitions ::
  "(QRepPartitionBatch \<Rightarrow> bool) \<Rightarrow> nat \<Rightarrow> QRepPartition list
     \<Rightarrow> QRepPartitionBatch list \<times> failure option" where
  "processPartitions child_ok maxWorkers partitions =
     (let chunkSize = DivCeil (length partitions) maxWorkers in
      if chunkSize = 0 then ([], Some (Panic ''integer divide by zero''))
      else
        (let batches = batches_loop chunkSize 0 partitions;
             started = map (\<lambda>(i, parts). \<lparr> Partitions = parts, BatchId = of_nat (i + 1) \<rparr>)
                           (enumerate 0 batches)
         in if list_all child_ok started then (started, None)
            else (started, Some (Err ''failed to wait for child workflow''))))"

subsection \<open>Pause and resume at the end of a workflow run\<close>

text \<open>
  The signal type \<open>model.CDCFlowSignal\<close> and the function \<open>model.FlowSignalHandler\<close> are not
  among the sources. The workflow files name two signals, \<open>NoopSignal\<close> and \<open>PauseSignal\<close>;
  the handler is a parameter \<open>handler\<close> of everything below, called as in the source with
  the active signal first and the received one second.

  A blocking receive on the signal channel (\<open>ReceiveWithTimeout\<close> with one minute) either
  delivers a signal, or times out with the context alive, or returns without a signal
  because the context was cancelled (\<open>ctx.Err()\<close> is not nil). What the channel delivers
  is input to the workflow: a list of such outcomes, in order.
\<close>

datatype CDCFlowSignal = NoopSignal | PauseSignal | OtherSignal int64

datatype receive = Received CDCFlowSignal | TimedOut | Cancelled

datatype loop_end = Resumed CDCFlowSignal | CtxErr | Waiting

text \<open>
  The loop \<open>for q.activeSignal == model.PauseSignal\<close>. When the list of outcomes runs
  out while the flow is still paused the workflow is blocked on the channel: \<open>Waiting\<close>.
\<close>

fun pause_loop ::
  "(CDCFlowSignal \<Rightarrow> CDCFlowSignal \<Rightarrow> CDCFlowSignal) \<Rightarrow> CDCFlowSignal \<Rightarrow> receive list \<Rightarrow> loop_end" where
  "pause_loop handler activeSignal [] =
     (if activeSignal = PauseSignal then Waiting else Resumed activeSignal)"
| "pause_loop handler activeSignal (r # rs) =
     (if activeSignal = PauseSignal then
        (case r of
           Received val \<Rightarrow> pause_loop handler (handler activeSignal val) rs
         | TimedOut \<Rightarrow> pause_loop handler activeSignal rs
         | Cancelled \<Rightarrow> CtxErr)
      else Resumed activeSignal)"

datatype workflow_end =
  ContinueAsNew QRepFlowState | ReturnedError | BlockedPaused QRepFlowState

text \<open>
  The last part of \<open>QRepFlowWorkflow\<close>, from \<open>signalChan := ...\<close> to the return.
  \<open>q.activeSignal\<close> is \<open>NoopSignal\<close> when it starts (\<open>NewQRepFlowExecution\<close> sets it and
  nothing before this point writes it). \<open>async\<close> is what \<open>ReceiveAsync\<close> finds in the
  channel, \<open>blocking\<close> the outcomes of the blocking receives, \<open>ctx_err\<close> whether
  \<open>ctx.Err()\<close> is set at the final check. \<open>BlockedPaused\<close> carries the state the query
  handlers see while the workflow waits. (The update handler that \<open>setWorkflowQueries\<close>
  registers can write \<open>CurrentFlowStatus\<close> from outside at any time; such writes are not
  part of these lines and not part of the model.)
\<close>

definition QRepFlowWorkflow_signals ::
  "(CDCFlowSignal \<Rightarrow> CDCFlowSignal \<Rightarrow> CDCFlowSignal) \<Rightarrow> CDCFlowSignal option \<Rightarrow> receive list
     \<Rightarrow> bool \<Rightarrow> QRepFlowState \<Rightarrow> workflow_end" where
  "QRepFlowWorkflow_signals handler async blocking ctx_err state =
     (let activeSignal = (case async of Some val \<Rightarrow> handler NoopSignal val | None \<Rightarrow> NoopSignal) in
      if activeSignal = PauseSignal then
        (let state1 = state\<lparr>CurrentFlowStatus := STATUS_PAUSED\<rparr> in
         case pause_loop handler activeSignal blocking of
           Waiting \<Rightarrow> BlockedPaused state1
         | CtxErr \<Rightarrow> ReturnedError
         | Resumed s \<Rightarrow> if ctx_err then ReturnedError else ContinueAsNew state1)
      else if ctx_err then ReturnedError else ContinueAsNew state)"

text \<open>The same lines at the end of \<open>XminFlowWorkflow\<close>.\<close>

definition XminFlowWorkflow_signals ::
  "(CDCFlowSignal \<Rightarrow> CDCFlowSignal \<Rightarrow> CDCFlowSignal) \<Rightarrow> CDCFlowSignal option \<Rightarrow> receive list
     \<Rightarrow> bool \<Rightarrow> QRepFlowState \<Rightarrow> workflow_end" where
  "XminFlowWorkflow_signals handler async blocking ctx_err state =
     (let activeSignal = (case async of Some val \<Rightarrow> handler NoopSignal val | None \<Rightarrow> NoopSignal) in
      if activeSignal = PauseSignal then
        (let state1 = state\<lparr>CurrentFlowStatus := STATUS_PAUSED\<rparr> in
         case pause_loop handler activeSignal blocking of
           Waiting \<Rightarrow> BlockedPaused state1
         | CtxErr \<Rightarrow> ReturnedError
         | Resumed s \<Rightarrow> if ctx_err then ReturnedError else ContinueAsNew state1)
      else if ctx_err then ReturnedError else ContinueAsNew state)"

text \<open>
  Modelled from the spec: \<open>model.FlowSignalHandler\<close> is not among the sources; the spec
  calls the signal latest-wins. The handler below is used only to run the workflow on
  concrete inputs.
\<close>

definition latest_wins :: "CDCFlowSignal \<Rightarrow> CDCFlowSignal \<Rightarrow> CDCFlowSignal" where
  "latest_wins activeSignal val = val"

text \<open>Ten partitions with consecutive integer ranges, to run the chunking on.\<close>

definition ten_partitions :: "QRepPartition list" where
  "ten_partitions =
     map (\<lambda>i. \<lparr> PartitionId = ''p'', Range' = Some \<lparr> Start = of_nat i, End = of_nat (i + 1) \<rparr> \<rparr>) [0 ..< 10]"

section \<open>Column kinds and table schemas\<close>

text \<open>
  \<open>qvalue.QValueKind\<close> is a string type whose constants are declared outside the sources;
  the constructors below are the constants the sources name, and \<open>QValueKindOther\<close> is any
  other kind string. \<open>protos.TableSchema\<close> and its column descriptions are generated code;
  the records hold the fields the connectors read.
\<close>

datatype QValueKind =
    QValueKindInt16 | QValueKindInt32 | QValueKindInt64
  | QValueKindFloat32 | QValueKindFloat64
  | QValueKindQChar | QValueKindString | QValueKindBoolean
  | QValueKindTimestamp | QValueKindTimestampTZ | QValueKindDate
  | QValueKindTime | QValueKindTimeTZ
  | QValueKindNumeric | QValueKindBytes | QValueKindBit | QValueKindUUID
  | QValueKindJSON | QValueKindHStore
  | QValueKindGeography | QValueKindGeometry | QValueKindPoint
  | QValueKindArrayFloat32 | QValueKindArrayFloat64
  | QValueKindArrayInt16 | QValueKindArrayInt32 | QValueKindArrayInt64
  | QValueKindArrayString | QValueKindArrayBoolean
  | QValueKindArrayTimestamp | QValueKindArrayTimestampTZ | QValueKindArrayDate
  | QValueKindOther string

record FieldDescription =
  Name :: string
  Type :: QValueKind
  TypeModifier :: int32

record TableSchema =
  Columns :: "FieldDescription list"
  PrimaryKeyColumns :: "string list"

section \<open>ClickHouse normalization (\<open>src/flow/connectors/clickhouse/normalize.go\<close>)\<close>

subsection \<open>The connector's stores\<close>

text \<open>
  A row of the raw table, with the columns the normalization reads. The destination
  table name is nullable (\<open>sql.NullString\<close> in \<open>getDistinctTableNamesInBatch\<close>).
\<close>

record RawRow =
  peerdb_batch_id :: int64
  peerdb_destination_table_name :: "string option"
  peerdb_record_type :: int64
  peerdb_timestamp :: int64
  peerdb_data :: string

text \<open>
  The statement \<open>NormalizeRecords\<close> builds for one destination table is kept as its
  parts instead of its text. A projected column is one of the five expressions the source
  writes:
  \<^item> \<open>ProjDate cn\<close>: \<open>toDate(parseDateTime64BestEffortOrNull(JSONExtractString(_peerdb_data, 'cn'))) AS cn\<close>;
  \<^item> \<open>ProjDateTime cn\<close>: \<open>parseDateTime64BestEffortOrNull(JSONExtractString(_peerdb_data, 'cn')) AS cn\<close>;
  \<^item> \<open>ProjJSONExtract cn ty\<close>: \<open>JSONExtract(_peerdb_data, 'cn', 'ty') AS cn\<close>;
  \<^item> \<open>ProjSign\<close>: \<open>intDiv(_peerdb_record_type, 2) AS _peerdb_is_deleted\<close>;
  \<^item> \<open>ProjVersion\<close>: \<open>_peerdb_timestamp AS _peerdb_version\<close>.

  \<open>InsertSelect\<close> is
  \<open>INSERT INTO into_table(col_selector) SELECT select_proj FROM from_table
    WHERE _peerdb_batch_id > batch_id_gt AND _peerdb_batch_id <= batch_id_le
    AND _peerdb_destination_table_name = 'destination_eq' ORDER BY _peerdb_timestamp\<close>.
\<close>

datatype ch_proj =
    ProjDate string | ProjDateTime string | ProjJSONExtract string string
  | ProjSign | ProjVersion

record InsertSelect =
  into_table :: string
  col_selector :: "string list"
  select_proj :: "ch_proj list"
  from_table :: string
  batch_id_gt :: int64
  batch_id_le :: int64
  destination_eq :: string

text \<open>
  The connector's state: the metadata store's last normalized batch id per flow
  (\<open>c.pgMetadata\<close>), the raw tables and the normalized tables of the ClickHouse database
  (\<open>c.database\<close>), by table name. A row of a normalized table is recorded as the
  projection and the raw row it was computed from.
\<close>

record ClickhouseConnector =
  normalize_batch_id :: "string \<Rightarrow> int64"
  raw_tables :: "string \<Rightarrow> RawRow list"
  normalized_tables :: "string \<Rightarrow> (ch_proj list \<times> RawRow) list"

text \<open>
  Calls that leave the process can fail. Which of them fail is input to the model:
  \<open>fails\<close> of the environment says so for each place the source checks an error. The
  environment also holds the two functions of the connector package that are not among
  the sources: \<open>getRawTableName\<close> and \<open>qValueKindToClickhouseType\<close>.
\<close>

datatype call =
    CallGetLastNormalizeBatchID | CallQueryDistinct | CallScan | CallRowsErr
  | CallExec string | CallUpdateNormalizeBatchID

record ch_env =
  fails :: "call \<Rightarrow> bool"
  getRawTableName :: "string \<Rightarrow> string"
  qValueKindToClickhouseType :: "QValueKind \<Rightarrow> failure + string"

record NormalizeRecordsRequest =
  req_FlowJobName :: string
  SyncBatchID :: int64
  TableNameSchemaMapping :: "string \<rightharpoonup> TableSchema"

record NormalizeResponse =
  Done :: bool
  StartBatchID :: int64
  EndBatchID :: int64

subsection \<open>Metadata and queries\<close>

text \<open>
  Modelled from the spec: \<open>pgMetadata.GetLastNormalizeBatchID\<close> and
  \<open>pgMetadata.UpdateNormalizeBatchID\<close> are not among the sources; the spec has the
  destination connector get and set the batch counters of a flow. The connector's
  \<open>GetLastNormalizeBatchID\<close> wraps the error of the first.
\<close>

definition GetLastNormalizeBatchID ::
  "ch_env \<Rightarrow> ClickhouseConnector \<Rightarrow> string \<Rightarrow> failure + int64" where
  "GetLastNormalizeBatchID env c flowJobName =
     (if fails env CallGetLastNormalizeBatchID
      then Inl (Err ''error while getting last normalize batch id'')
      else Inr (normalize_batch_id c flowJobName))"

definition UpdateNormalizeBatchID ::
  "ch_env \<Rightarrow> ClickhouseConnector \<Rightarrow> string \<Rightarrow> int64 \<Rightarrow> failure + ClickhouseConnector" where
  "UpdateNormalizeBatchID env c flowJobName batchID =
     (if fails env CallUpdateNormalizeBatchID
      then Inl (Err ''error while updating normalize batch id'')
      else Inr (c\<lparr>normalize_batch_id := (normalize_batch_id c)(flowJobName := batchID)\<rparr>))"

text \<open>
  The rows a \<open>WHERE _peerdb_batch_id > lo AND _peerdb_batch_id <= hi\<close> keeps; the
  comparison is the signed one of \<open>Int64\<close>.
\<close>

definition in_batch_range :: "int64 \<Rightarrow> int64 \<Rightarrow> RawRow \<Rightarrow> bool" where
  "in_batch_range lo hi r \<longleftrightarrow> lo <s peerdb_batch_id r \<and> peerdb_batch_id r \<le>s hi"

text \<open>
  The loop over \<open>rows.Next()\<close> in \<open>getDistinctTableNamesInBatch\<close>: a scan error, an
  invalid (null) table name, or the next name appended.
\<close>

fun scan_table_names :: "ch_env \<Rightarrow> string option list \<Rightarrow> failure + string list" where
  "scan_table_names env [] = Inr []"
| "scan_table_names env (tableName # rest) =
     (if fails env CallScan then Inl (Err ''error while scanning table name'')
      else case tableName of
             None \<Rightarrow> Inl (Err ''table name is not valid'')
           | Some s \<Rightarrow> (case scan_table_names env rest of
                          Inl e \<Rightarrow> Inl e
                        | Inr tableNames \<Rightarrow> Inr (s # tableNames)))"

text \<open>
  \<open>SELECT DISTINCT _peerdb_destination_table_name FROM raw WHERE _peerdb_batch_id >
  normalizeBatchID AND _peerdb_batch_id <= syncBatchID\<close>. SQL leaves the order of the
  distinct names open; \<open>remdups\<close> fixes one.
\<close>

definition getDistinctTableNamesInBatch ::
  "ch_env \<Rightarrow> ClickhouseConnector \<Rightarrow> string \<Rightarrow> int64 \<Rightarrow> int64 \<Rightarrow> failure + string list" where
  "getDistinctTableNamesInBatch env c flowJobName syncBatchID normalizeBatchID =
     (let rawTbl = getRawTableName env flowJobName in
      if fails env CallQueryDistinct
      then Inl (Err ''error while querying raw table for distinct table names in batch'')
      else
        (let rows = remdups (map peerdb_destination_table_name
                      (filter (in_batch_range normalizeBatchID syncBatchID) (raw_tables c rawTbl)))
         in case scan_table_names env rows of
              Inl e \<Rightarrow> Inl e
            | Inr tableNames \<Rightarrow>
                if fails env CallRowsErr then Inl (Err ''failed to read rows'')
                else Inr tableNames))"

subsection \<open>\<open>NormalizeRecords\<close>\<close>

text \<open>
  The loop over the columns of a table's schema: the column selector gets the column
  name, the projection the expression chosen by the ClickHouse type of the column. A kind
  without a ClickHouse type ends the call with an error.
\<close>

fun column_projections ::
  "ch_env \<Rightarrow> FieldDescription list \<Rightarrow> failure + (string list \<times> ch_proj list)" where
  "column_projections env [] = Inr ([], [])"
| "column_projections env (column # rest) =
     (let cn = Name column; colType = Type column in
      case qValueKindToClickhouseType env colType of
        Inl e \<Rightarrow> Inl (Err ''error while converting column type to clickhouse type'')
      | Inr clickhouseType \<Rightarrow>
          (let p = (if clickhouseType = ''Date'' then ProjDate cn
                    else if clickhouseType = ''DateTime64(6)'' then ProjDateTime cn
                    else ProjJSONExtract cn clickhouseType)
           in case column_projections env rest of
                Inl e \<Rightarrow> Inl e
              | Inr (colSelector, projection) \<Rightarrow> Inr (cn # colSelector, p # projection)))"

text \<open>
  What the database does with the statement (\<open>c.database.ExecContext\<close>): the raw rows
  the \<open>WHERE\<close> clause keeps, in the order of their timestamps, are projected and appended
  to the destination table. A failed statement changes nothing.
\<close>

definition selected_rows :: "InsertSelect \<Rightarrow> RawRow list \<Rightarrow> RawRow list" where
  "selected_rows q rows =
     sort_key (\<lambda>r. sint (peerdb_timestamp r))
       (filter (\<lambda>r. in_batch_range (batch_id_gt q) (batch_id_le q) r
                     \<and> peerdb_destination_table_name r = Some (destination_eq q)) rows)"

definition ExecContext ::
  "ch_env \<Rightarrow> ClickhouseConnector \<Rightarrow> InsertSelect \<Rightarrow> failure + ClickhouseConnector" where
  "ExecContext env c q =
     (if fails env (CallExec (into_table q))
      then Inl (Err ''error while inserting into normalized table'')
      else
        (let inserted = map (\<lambda>r. (select_proj q, r)) (selected_rows q (raw_tables c (from_table q)))
         in Inr (c\<lparr>normalized_tables :=
                   (normalized_tables c)(into_table q := normalized_tables c (into_table q) @ inserted)\<rparr>)))"

text \<open>
  The loop \<open>for _, tbl := range destinationTableNames\<close>. A table without an entry in
  \<open>req.TableNameSchemaMapping\<close> has a nil schema, and reading its columns panics. The
  sign and version columns close the selector and the projection. The result is the error
  that ended the loop, if any, and the connector as the loop left it: tables written before
  the error stay written.
\<close>

fun normalize_tables ::
  "ch_env \<Rightarrow> NormalizeRecordsRequest \<Rightarrow> string \<Rightarrow> int64 \<Rightarrow> string list \<Rightarrow> ClickhouseConnector
     \<Rightarrow> failure option \<times> ClickhouseConnector" where
  "normalize_tables env req rawTbl normBatchID [] c = (None, c)"
| "normalize_tables env req rawTbl normBatchID (tbl # rest) c =
     (case TableNameSchemaMapping req tbl of
        None \<Rightarrow> (Some (Panic ''nil pointer dereference''), c)
      | Some schema \<Rightarrow>
          (case column_projections env (Columns schema) of
             Inl e \<Rightarrow> (Some e, c)
           | Inr (colSelector, projection) \<Rightarrow>
               (let q = \<lparr> into_table = tbl,
                          col_selector = colSelector @ [''_peerdb_is_deleted'', ''_peerdb_version''],
                          select_proj = projection @ [ProjSign, ProjVersion],
                          from_table = rawTbl,
                          batch_id_gt = normBatchID,
                          batch_id_le = SyncBatchID req,
                          destination_eq = tbl \<rparr>
                in case ExecContext env c q of
                     Inl e \<Rightarrow> (Some e, c)
                   | Inr c1 \<Rightarrow> normalize_tables env req rawTbl normBatchID rest c1)))"

text \<open>
  \<open>NormalizeRecords\<close>. The test \<open>normBatchID >= req.SyncBatchID\<close> is signed. The result
  is the response or the error, and the connector after the call.
\<close>

definition NormalizeRecords ::
  "ch_env \<Rightarrow> ClickhouseConnector \<Rightarrow> NormalizeRecordsRequest
     \<Rightarrow> (failure + NormalizeResponse) \<times> ClickhouseConnector" where
  "NormalizeRecords env c req =
     (case GetLastNormalizeBatchID env c (req_FlowJobName req) of
        Inl e \<Rightarrow> (Inl e, c)
      | Inr normBatchID \<Rightarrow>
          if SyncBatchID req \<le>s normBatchID then
            (Inr \<lparr> Done = False, StartBatchID = normBatchID, EndBatchID = SyncBatchID req \<rparr>, c)
          else
            (case getDistinctTableNamesInBatch env c (req_FlowJobName req) (SyncBatchID req) normBatchID of
               Inl e \<Rightarrow> (Inl e, c)
             | Inr destinationTableNames \<Rightarrow>
                 (let rawTbl = getRawTableName env (req_FlowJobName req) in
                  case normalize_tables env req rawTbl normBatchID destinationTableNames c of
                    (Some e, c1) \<Rightarrow> (Inl e, c1)
                  | (None, c1) \<Rightarrow>
                      (let endNormalizeBatchId = normBatchID + 1 in
                       case UpdateNormalizeBatchID env c1 (req_FlowJobName req) endNormalizeBatchId of
                         Inl e \<Rightarrow> (Inl e, c1)
                       | Inr c2 \<Rightarrow>
                           (Inr \<lparr> Done = True, StartBatchID = endNormalizeBatchId,
                                  EndBatchID = SyncBatchID req \<rparr>, c2)))))"

text \<open>
  A history of the connector: invocations of \<open>NormalizeRecords\<close>, each with its own
  environment and request, and in between rows appended to raw tables by the sync side.
\<close>

datatype ch_step =
    Normalize ch_env NormalizeRecordsRequest
  | AppendRaw string "RawRow list"

fun ch_run :: "ClickhouseConnector \<Rightarrow> ch_step list \<Rightarrow> ClickhouseConnector" where
  "ch_run c [] = c"
| "ch_run c (Normalize env req # steps) = ch_run (snd (NormalizeRecords env c req)) steps"
| "ch_run c (AppendRaw tbl rows # steps) =
     ch_run (c\<lparr>raw_tables := (raw_tables c)(tbl := raw_tables c tbl @ rows)\<rparr>) steps"

text \<open>
  A connector and an environment to run the code on: one flow \<open>mirror\<close> whose raw table
  holds an insert in batch 1 and an update in batch 2 for the table \<open>t\<close>, nothing
  normalized yet, and no call failing.
\<close>

definition env0 :: ch_env where
  "env0 = \<lparr> fails = (\<lambda>c. False),
            getRawTableName = (\<lambda>flow. ''_peerdb_raw_'' @ flow),
            qValueKindToClickhouseType = (\<lambda>k. if k = QValueKindInt64 then Inr ''Int64'' else Inr ''String'') \<rparr>"

definition row1 :: RawRow where
  "row1 = \<lparr> peerdb_batch_id = 1, peerdb_destination_table_name = Some ''t'',
            peerdb_record_type = 0, peerdb_timestamp = 100, peerdb_data = ''{id:1,v:a}'' \<rparr>"

definition row2 :: RawRow where
  "row2 = \<lparr> peerdb_batch_id = 2, peerdb_destination_table_name = Some ''t'',
            peerdb_record_type = 1, peerdb_timestamp = 200, peerdb_data = ''{id:1,v:b}'' \<rparr>"

definition conn0 :: ClickhouseConnector where
  "conn0 = \<lparr> normalize_batch_id = (\<lambda>flow. 0),
             raw_tables = (\<lambda>tbl. if tbl = ''_peerdb_raw_mirror'' then [row1, row2] else []),
             normalized_tables = (\<lambda>tbl. []) \<rparr>"

definition schema_t :: TableSchema where
  "schema_t = \<lparr> Columns = [\<lparr> Name = ''id'', Type = QValueKindInt64, TypeModifier = 0 \<rparr>,
                           \<lparr> Name = ''v'', Type = QValueKindString, TypeModifier = 0 \<rparr>],
               PrimaryKeyColumns = [''id''] \<rparr>"

definition req_sync :: "int64 \<Rightarrow> NormalizeRecordsRequest" where
  "req_sync n = \<lparr> req_FlowJobName = ''mirror'', SyncBatchID = n,
                  TableNameSchemaMapping = [''t'' \<mapsto> schema_t] \<rparr>"

text \<open>
  Between two states of the connector, every normalized table has only gained rows, and
  the raw rows they were computed from have a batch id in the range \<open>(lo, hi]\<close>.
\<close>

definition written_in_range ::
  "int64 \<Rightarrow> int64 \<Rightarrow> ClickhouseConnector \<Rightarrow> ClickhouseConnector \<Rightarrow> bool" where
  "written_in_range lo hi c c1 \<longleftrightarrow>
     (\<forall>tbl. \<exists>written. normalized_tables c1 tbl = normalized_tables c tbl @ written
        \<and> (\<forall>(p, r) \<in> set written. in_batch_range lo hi r))"

section \<open>BigQuery merge statements (\<open>src/flow/connectors/bigquery/merge_stmt_generator.go\<close>)\<close>

subsection \<open>Strings and helpers\<close>

text \<open>The verb \<open>%d\<close> of \<open>fmt.Sprintf\<close> on a non-negative integer.\<close>

definition digit_char :: "nat \<Rightarrow> char" where
  "digit_char d = char_of (48 + d)"

function string_of_nat :: "nat \<Rightarrow> string" where
  "string_of_nat n =
     (if n < 10 then [digit_char n] else string_of_nat (n div 10) @ [digit_char (n mod 10)])"
  by pat_completeness auto
termination
  by (relation "measure id") auto

declare string_of_nat.simps [simp del]

text \<open>
  \<open>strings.Split(s, ",")\<close> for a one-character separator: the pieces between the
  separators, one piece more than there are separators (the empty string gives one empty
  piece).
\<close>

fun strings_Split :: "string \<Rightarrow> char \<Rightarrow> string list" where
  "strings_Split [] sep = [[]]"
| "strings_Split (c # cs) sep =
     (if c = sep then [] # strings_Split cs sep
      else (case strings_Split cs sep of
              [] \<Rightarrow> [[c]]
            | w # ws \<Rightarrow> (c # w) # ws))"

text \<open>
  Modelled from the spec: \<open>utils.ArrayMinus\<close> is not among the sources; the comment of
  \<open>generateUpdateStatements\<close> calls it the set difference between all column names and
  the unchanged columns. The order of the first list is kept.
\<close>

definition ArrayMinus :: "'a list \<Rightarrow> 'a list \<Rightarrow> 'a list" where
  "ArrayMinus first second = filter (\<lambda>x. x \<notin> set second) first"

subsection \<open>The generator and the statement it builds\<close>

text \<open>
  \<open>shortColumn\<close> is a Go map from column names to short names; reading a missing key
  gives the empty string, and the generator never asks whether a key is present, so the
  map is a total function with the empty string where nothing was stored.
  \<open>rawDatasetTable\<close> is the rendering \<open>rawDatasetTable.string()\<close>, \<open>dstDatasetTable\<close> the
  field \<open>dstDatasetTable.table\<close>.
\<close>

record PeerDBColumns =
  SoftDeleteColName :: string
  SyncedAtColName :: string
  SoftDelete :: bool

record mergeStmtGenerator =
  rawDatasetTable :: string
  dstTableName :: string
  dstDatasetTable :: string
  syncBatchID :: int64
  normalizeBatchID :: int64
  normalizedTableSchema :: TableSchema
  peerdbCols :: PeerDBColumns
  shortColumn :: "string \<Rightarrow> string"

text \<open>
  The statement is kept as its parts. An expression on the right of an assignment or in a
  \<open>VALUES\<close> list is a column of the source row \<open>_d\<close> (written \<open>_d.short\<close> in an update and
  as the backquoted short name in an insert), \<open>CURRENT_TIMESTAMP\<close>, \<open>TRUE\<close> or \<open>FALSE\<close>.
  A \<open>WHEN\<close> branch has the test on \<open>MATCHED\<close>, the test on the record type (\<open>_rt=2\<close> is a
  delete record, \<open>_rt!=2\<close> any other), the optional test \<open>_ut='cols'\<close> on the unchanged
  columns, and its action.
\<close>

datatype bq_expr = SrcCol string | CURRENT_TIMESTAMP | LitTRUE | LitFALSE

datatype bq_action =
    InsertValues "string list" "bq_expr list"
  | UpdateSet "(string \<times> bq_expr) list"
  | DeleteRow

datatype rt_test = RtIsDelete | RtNotDelete

record bq_when =
  when_matched :: bool
  when_rt :: rt_test
  when_ut :: "string option"
  when_then :: bq_action

text \<open>
  A projection of the flattened CTE, by the format string that writes it (name, BigQuery
  type and short name as in the source):
  \<^item> \<open>ProjParseJSON\<close>: \<open>CAST(PARSE_JSON(JSON_VALUE(_peerdb_data, '$.name'),wide_number_mode=>'round') AS type) AS short\<close>;
  \<^item> \<open>ProjFromBase64\<close>: \<open>FROM_BASE64(JSON_VALUE(_peerdb_data,'$.name')) AS short\<close>;
  \<^item> \<open>ProjArray\<close>: \<open>ARRAY(SELECT CAST(element AS type) FROM UNNEST(CAST(JSON_VALUE_ARRAY(_peerdb_data, '$.name') AS ARRAY<STRING>)) AS element WHERE element IS NOT null) AS short\<close>;
  \<^item> \<open>ProjGeography\<close>: \<open>CAST(ST_GEOGFROMTEXT(JSON_VALUE(_peerdb_data, '$.name')) AS type) AS short\<close>;
  \<^item> \<open>ProjCast\<close>: \<open>CAST(JSON_VALUE(_peerdb_data, '$.name') AS type) AS short\<close>;
  \<^item> \<open>ProjTimestamp\<close>, \<open>ProjRecordType\<close>, \<open>ProjUnchangedToast\<close>: \<open>_peerdb_timestamp\<close>,
    \<open>_peerdb_record_type AS _rt\<close>, \<open>_peerdb_unchanged_toast_columns AS _ut\<close>.

  \<open>FlattenedCTE\<close> is \<open>WITH _f AS (SELECT f_projs FROM f_from WHERE
  _peerdb_batch_id>f_batch_id_gt AND _peerdb_batch_id<=f_batch_id_le AND
  _peerdb_destination_table_name='f_destination_eq')\<close>. \<open>DeDupedCTE\<close> keeps rank 1 of
  \<open>RANK() OVER (PARTITION BY CONCAT(short keys) ORDER BY _peerdb_timestamp DESC)\<close>.
\<close>

datatype bq_proj =
    ProjParseJSON string string string
  | ProjFromBase64 string string
  | ProjArray string string string
  | ProjGeography string string string
  | ProjCast string string string
  | ProjTimestamp | ProjRecordType | ProjUnchangedToast

record FlattenedCTE =
  f_projs :: "bq_proj list"
  f_from :: string
  f_batch_id_gt :: int64
  f_batch_id_le :: int64
  f_destination_eq :: string

record DeDupedCTE =
  dd_partition_by :: "string list"

record MergeStmt =
  merge_into :: string
  merge_f :: FlattenedCTE
  merge_dd :: DeDupedCTE
  merge_on :: "(string \<times> string) list"
  merge_whens :: "bq_when list"

text \<open>
  \<open>generateFlattenedCTE\<close>. \<open>qValueKindToBigQueryType\<close> is not among the sources and is the
  parameter \<open>bq_type\<close>; \<open>bigquery.FloatFieldType\<close> is the string \<open>FLOAT\<close>.
\<close>

definition flattened_proj :: "(QValueKind \<Rightarrow> string) \<Rightarrow> mergeStmtGenerator \<Rightarrow> FieldDescription \<Rightarrow> bq_proj" where
  "flattened_proj bq_type m column =
     (let colType = Type column;
          bqType0 = bq_type colType;
          bqType = (if bqType0 = ''FLOAT'' then ''FLOAT64'' else bqType0);
          shortCol = shortColumn m (Name column)
      in if colType \<in> {QValueKindJSON, QValueKindHStore}
           then ProjParseJSON (Name column) bqType shortCol
         else if colType \<in> {QValueKindBytes, QValueKindBit}
           then ProjFromBase64 (Name column) shortCol
         else if colType \<in> {QValueKindArrayFloat32, QValueKindArrayFloat64, QValueKindArrayInt16,
                  QValueKindArrayInt32, QValueKindArrayInt64, QValueKindArrayString,
                  QValueKindArrayBoolean, QValueKindArrayTimestamp, QValueKindArrayTimestampTZ,
                  QValueKindArrayDate}
           then ProjArray bqType (Name column) shortCol
         else if colType \<in> {QValueKindGeography, QValueKindGeometry, QValueKindPoint}
           then ProjGeography (Name column) bqType shortCol
         else ProjCast (Name column) bqType shortCol)"

definition generateFlattenedCTE :: "(QValueKind \<Rightarrow> string) \<Rightarrow> mergeStmtGenerator \<Rightarrow> FlattenedCTE" where
  "generateFlattenedCTE bq_type m =
     \<lparr> f_projs = map (flattened_proj bq_type m) (Columns (normalizedTableSchema m))
                  @ [ProjTimestamp, ProjRecordType, ProjUnchangedToast],
       f_from = rawDatasetTable m,
       f_batch_id_gt = normalizeBatchID m,
       f_batch_id_le = syncBatchID m,
       f_destination_eq = dstTableName m \<rparr>"

definition generateDeDupedCTE :: "mergeStmtGenerator \<Rightarrow> DeDupedCTE" where
  "generateDeDupedCTE m =
     \<lparr> dd_partition_by = map (shortColumn m) (PrimaryKeyColumns (normalizedTableSchema m)) \<rparr>"

text \<open>
  \<open>generateUpdateStatements\<close>. \<open>update_assignments\<close> is \<open>tmpArray\<close> after the three
  appends of one round of the loop: an assignment \<open>col = _d.short\<close> for every column that
  is not among the unchanged ones, then the synced-at column when it has a name, then the
  soft-delete column set to \<open>FALSE\<close> when soft delete is handled.
  \<open>update_statements_for\<close> is what one round appends to \<open>updateStmts\<close>: the branch for
  records that are not deletes and, when soft delete is handled, the branch for delete
  records, whose assignments are the same with the last one replaced by the soft-delete
  column set to \<open>TRUE\<close>.
\<close>

definition handleSoftDelete :: "mergeStmtGenerator \<Rightarrow> bool" where
  "handleSoftDelete m \<longleftrightarrow>
     SoftDelete (peerdbCols m) \<and> SoftDeleteColName (peerdbCols m) \<noteq> []"

definition update_assignments ::
  "mergeStmtGenerator \<Rightarrow> string list \<Rightarrow> string \<Rightarrow> (string \<times> bq_expr) list" where
  "update_assignments m allCols cols =
     (let unchangedColsArray = strings_Split cols (CHR '','');
          otherCols = ArrayMinus allCols unchangedColsArray;
          tmpArray = map (\<lambda>colName. (colName, SrcCol (shortColumn m colName))) otherCols;
          tmpArray = (if SyncedAtColName (peerdbCols m) \<noteq> []
                      then tmpArray @ [(SyncedAtColName (peerdbCols m), CURRENT_TIMESTAMP)]
                      else tmpArray)
      in if handleSoftDelete m
         then tmpArray @ [(SoftDeleteColName (peerdbCols m), LitFALSE)]
         else tmpArray)"

definition update_statements_for ::
  "mergeStmtGenerator \<Rightarrow> string list \<Rightarrow> string \<Rightarrow> bq_when list" where
  "update_statements_for m allCols cols =
     (let tmpArray = update_assignments m allCols cols;
          updateStmt = \<lparr> when_matched = True, when_rt = RtNotDelete, when_ut = Some cols,
                         when_then = UpdateSet tmpArray \<rparr>
      in if handleSoftDelete m
         then [updateStmt,
               \<lparr> when_matched = True, when_rt = RtIsDelete, when_ut = Some cols,
                 when_then = UpdateSet (butlast tmpArray @ [(SoftDeleteColName (peerdbCols m), LitTRUE)]) \<rparr>]
         else [updateStmt])"

definition generateUpdateStatements ::
  "mergeStmtGenerator \<Rightarrow> string list \<Rightarrow> string list \<Rightarrow> bq_when list" where
  "generateUpdateStatements m allCols unchangedToastColumns =
     concat (map (update_statements_for m allCols) unchangedToastColumns)"

text \<open>
  \<open>generateMergeStmt\<close>. The first loop stores the short name \<open>_c\<close>\<open>i\<close> of the \<open>i\<close>-th column
  in the generator's map, so the function returns the generator as well. The statement
  has, in this order: the insert for unmatched records that are not deletes; the update
  statements; with soft delete, the insert of an unmatched delete record with the
  soft-delete column \<open>TRUE\<close>; and the branch for matched delete records, which deletes the
  row or, with soft delete, sets the soft-delete column to \<open>TRUE\<close> (and the synced-at
  column when it has a name). The tests on soft delete here read \<open>SoftDelete\<close> alone.
\<close>

definition generateMergeStmt ::
  "(QValueKind \<Rightarrow> string) \<Rightarrow> mergeStmtGenerator \<Rightarrow> string list \<Rightarrow> MergeStmt \<times> mergeStmtGenerator" where
  "generateMergeStmt bq_type m unchangedToastColumns =
     (let columns = enumerate 0 (Columns (normalizedTableSchema m));
          m1 = m\<lparr>shortColumn :=
                  fold (\<lambda>(i, col) sc. sc(Name col := ''_c'' @ string_of_nat i)) columns (shortColumn m)\<rparr>;
          backtickColNames = map (\<lambda>(i, col). Name col) columns;
          shortBacktickColNames = map (\<lambda>(i, col). ''_c'' @ string_of_nat i) columns;
          pureColNames = map (\<lambda>(i, col). Name col) columns;
          insertColumns = backtickColNames @ [SyncedAtColName (peerdbCols m1)];
          insertValues = map SrcCol shortBacktickColNames @ [CURRENT_TIMESTAMP];
          updateStatementsforToastCols = generateUpdateStatements m1 pureColNames unchangedToastColumns;
          updateStatementsforToastCols =
            (if SoftDelete (peerdbCols m1)
             then updateStatementsforToastCols
                  @ [\<lparr> when_matched = False, when_rt = RtIsDelete, when_ut = None,
                       when_then = InsertValues (insertColumns @ [SoftDeleteColName (peerdbCols m1)])
                                                (insertValues @ [LitTRUE]) \<rparr>]
             else updateStatementsforToastCols);
          pkeySelect = map (\<lambda>pkeyColName. (pkeyColName, shortColumn m1 pkeyColName))
                           (PrimaryKeyColumns (normalizedTableSchema m1));
          deletePart =
            (if SoftDelete (peerdbCols m1)
             then UpdateSet ((SoftDeleteColName (peerdbCols m1), LitTRUE)
                    # (if SyncedAtColName (peerdbCols m1) \<noteq> []
                       then [(SyncedAtColName (peerdbCols m1), CURRENT_TIMESTAMP)] else []))
             else DeleteRow)
      in (\<lparr> merge_into = dstDatasetTable m1,
            merge_f = generateFlattenedCTE bq_type m1,
            merge_dd = generateDeDupedCTE m1,
            merge_on = pkeySelect,
            merge_whens =
              \<lparr> when_matched = False, when_rt = RtNotDelete, when_ut = None,
                when_then = InsertValues insertColumns insertValues \<rparr>
              # updateStatementsforToastCols
              @ [\<lparr> when_matched = True, when_rt = RtIsDelete, when_ut = None, when_then = deletePart \<rparr>] \<rparr>,
          m1))"

subsection \<open>What the statement does to a row\<close>

text \<open>
  The properties proved below speak of destination rows after the statement is applied, so
  the statement needs a meaning. It is BigQuery's: for a row \<open>_d\<close> of the source and the target row it
  joins with on the primary key (or none), the first \<open>WHEN\<close> branch whose tests hold is
  applied, and no other. A destination row maps column names to values; a source row has
  a value for every short column name, its record type \<open>_rt\<close>, its unchanged columns
  \<open>_ut\<close> and its timestamp. \<open>now\<close> is the value of \<open>CURRENT_TIMESTAMP\<close>.
\<close>

datatype bq_value = VData string | VBool bool | VTimestamp int

record SourceRow =
  src_cols :: "string \<Rightarrow> bq_value"
  src_rt :: int
  src_ut :: string
  src_timestamp :: int

fun eval_expr :: "int \<Rightarrow> SourceRow \<Rightarrow> bq_expr \<Rightarrow> bq_value" where
  "eval_expr now d (SrcCol short) = src_cols d short"
| "eval_expr now d CURRENT_TIMESTAMP = VTimestamp now"
| "eval_expr now d LitTRUE = VBool True"
| "eval_expr now d LitFALSE = VBool False"

definition set_columns ::
  "int \<Rightarrow> SourceRow \<Rightarrow> (string \<times> bq_expr) list \<Rightarrow> (string \<rightharpoonup> bq_value) \<Rightarrow> (string \<rightharpoonup> bq_value)" where
  "set_columns now d assignments row =
     fold (\<lambda>(col, e) r. r(col \<mapsto> eval_expr now d e)) assignments row"

definition when_applies :: "bq_when \<Rightarrow> SourceRow \<Rightarrow> (string \<rightharpoonup> bq_value) option \<Rightarrow> bool" where
  "when_applies w d existing \<longleftrightarrow>
     when_matched w = (existing \<noteq> None)
     \<and> (case when_rt w of RtIsDelete \<Rightarrow> src_rt d = 2 | RtNotDelete \<Rightarrow> src_rt d \<noteq> 2)
     \<and> (case when_ut w of None \<Rightarrow> True | Some cols \<Rightarrow> src_ut d = cols)"

fun run_action ::
  "int \<Rightarrow> SourceRow \<Rightarrow> bq_action \<Rightarrow> (string \<rightharpoonup> bq_value) option \<Rightarrow> (string \<rightharpoonup> bq_value) option" where
  "run_action now d (InsertValues cols vals) existing = Some (set_columns now d (zip cols vals) Map.empty)"
| "run_action now d (UpdateSet assignments) existing = map_option (set_columns now d assignments) existing"
| "run_action now d DeleteRow existing = None"

fun merge_row ::
  "bq_when list \<Rightarrow> int \<Rightarrow> SourceRow \<Rightarrow> (string \<rightharpoonup> bq_value) option \<Rightarrow> (string \<rightharpoonup> bq_value) option" where
  "merge_row [] now d existing = existing"
| "merge_row (w # ws) now d existing =
     (if when_applies w d existing then run_action now d (when_then w) existing
      else merge_row ws now d existing)"

text \<open>
  The rows of the flattened CTE are the raw rows its \<open>WHERE\<close> clause keeps. The de-duped
  CTE keeps the rows of rank 1: those for which no row with the same key columns has a
  greater timestamp.
\<close>

definition flattened_rows :: "FlattenedCTE \<Rightarrow> RawRow list \<Rightarrow> RawRow list" where
  "flattened_rows f rows =
     filter (\<lambda>r. in_batch_range (f_batch_id_gt f) (f_batch_id_le f) r
                   \<and> peerdb_destination_table_name r = Some (f_destination_eq f)) rows"

definition deduped_rows :: "DeDupedCTE \<Rightarrow> SourceRow list \<Rightarrow> SourceRow list" where
  "deduped_rows dd rows =
     filter (\<lambda>r. \<not> (\<exists>r1 \<in> set rows.
                     map (src_cols r1) (dd_partition_by dd) = map (src_cols r) (dd_partition_by dd)
                     \<and> src_timestamp r < src_timestamp r1)) rows"

text \<open>Whether a branch writes \<open>TRUE\<close> into a column.\<close>

fun sets_true :: "string \<Rightarrow> bq_action \<Rightarrow> bool" where
  "sets_true col (InsertValues cols vals) = ((col, LitTRUE) \<in> set (zip cols vals))"
| "sets_true col (UpdateSet assignments) = ((col, LitTRUE) \<in> set assignments)"
| "sets_true col DeleteRow = False"

text \<open>
  A generator to run the code on: the table \<open>t\<close> with the key \<open>id\<close> and the columns \<open>a\<close>
  and \<open>b\<close>, soft delete into \<open>_peerdb_is_deleted\<close>, synced-at column \<open>_peerdb_synced_at\<close>.
\<close>

definition gen0 :: mergeStmtGenerator where
  "gen0 = \<lparr> rawDatasetTable = ''ds._peerdb_raw_mirror'', dstTableName = ''t'',
            dstDatasetTable = ''t'', syncBatchID = 2, normalizeBatchID = 0,
            normalizedTableSchema =
              \<lparr> Columns = [\<lparr> Name = ''id'', Type = QValueKindInt64, TypeModifier = 0 \<rparr>,
                            \<lparr> Name = ''a'', Type = QValueKindString, TypeModifier = 0 \<rparr>,
                            \<lparr> Name = ''b'', Type = QValueKindString, TypeModifier = 0 \<rparr>],
                PrimaryKeyColumns = [''id''] \<rparr>,
            peerdbCols = \<lparr> SoftDeleteColName = ''_peerdb_is_deleted'',
                           SyncedAtColName = ''_peerdb_synced_at'', SoftDelete = True \<rparr>,
            shortColumn = (\<lambda>c. []) \<rparr>"

definition bq_type0 :: "QValueKind \<Rightarrow> string" where
  "bq_type0 k = (if k = QValueKindInt64 then ''INT64'' else ''STRING'')"

text \<open>
  A destination row \<open>(id 1, a old-a, b old-b)\<close>, an update record for it that carries a
  new \<open>a\<close> and reports \<open>b\<close> unchanged, and a delete record for it (with the row's
  values, as the pull side fills them in).
\<close>

definition dest_row0 :: "string \<rightharpoonup> bq_value" where
  "dest_row0 = [''id'' \<mapsto> VData ''1'', ''a'' \<mapsto> VData ''old-a'', ''b'' \<mapsto> VData ''old-b'']"

definition update_b_unchanged :: SourceRow where
  "update_b_unchanged =
     \<lparr> src_cols = (\<lambda>c. if c = ''_c0'' then VData ''1'' else if c = ''_c1'' then VData ''new-a''
                        else VData []),
       src_rt = 1, src_ut = ''b'', src_timestamp = 200 \<rparr>"

definition delete_record :: SourceRow where
  "delete_record =
     \<lparr> src_cols = (\<lambda>c. if c = ''_c0'' then VData ''1'' else if c = ''_c1'' then VData ''old-a''
                        else if c = ''_c2'' then VData ''old-b'' else VData []),
       src_rt = 2, src_ut = [], src_timestamp = 100 \<rparr>"

section \<open>Value conversion (\<open>src/flow/connectors/sql/query_executor.go\<close>)\<close>

subsection \<open>Go values\<close>

text \<open>
  \<open>toQValue\<close> takes an \<open>interface{}\<close> and switches on its dynamic type, and the \<open>Value\<close> of
  a \<open>QValue\<close> is an \<open>interface{}\<close> again: \<open>go_value\<close> is the dynamic types that occur.
  \<^item> \<open>GoNil\<close> is the nil interface.
  \<^item> \<open>PNullInt16\<close> to \<open>PNullTime\<close> are pointers to the \<open>sql.Null...\<close> structs that
    \<open>processRows\<close> allocates as scan targets, with the \<open>Valid\<close> flag first.
  \<^item> \<open>PBytes\<close> is a \<open>*[]byte\<close>, \<open>PArray16\<close> a \<open>*[16]byte\<close> (its list has 16 bytes),
    \<open>PInterface\<close> a \<open>*interface{}\<close>; \<open>None\<close> is the nil pointer.
  \<^item> Floating-point numbers are kept as their IEEE bit patterns: nothing here computes
    with them. A time is a number of nanoseconds, a \<open>*big.Rat\<close> a rational.
  \<^item> \<open>GoSlice\<close> is a \<open>[]interface{}\<close>, the \<open>GoSlice...\<close> constructors are the typed slices,
    \<open>GoBytes\<close> a \<open>[]byte\<close>, \<open>GoArray16\<close> a \<open>[16]byte\<close>.
  \<^item> \<open>GoOther\<close> is a value of any other type, named by the type's name.
\<close>

datatype go_value =
    GoNil
  | PNullInt16 bool "16 word" | PNullInt32 bool int32 | PNullInt64 bool int64
  | PNullFloat64 bool "64 word" | PNullString bool string | PNullBool bool bool
  | PNullTime bool int
  | PBytes "byte list option" | PArray16 "byte list option" | PInterface "go_value option"
  | GoUint8 byte | GoInt16 "16 word" | GoInt32 int32 | GoInt64 int64
  | GoFloat32 "32 word" | GoFloat64 "64 word"
  | GoString string | GoBool bool | GoTime int | GoRat rat
  | GoBytes "byte list" | GoArray16 "byte list"
  | GoSlice "go_value list"
  | GoSliceFloat32 "32 word list" | GoSliceFloat64 "64 word list"
  | GoSliceInt16 "16 word list" | GoSliceInt32 "int32 list" | GoSliceInt64 "int64 list"
  | GoSliceString "string list"
  | GoOther string

record QValue =
  Kind :: QValueKind
  Value :: go_value

text \<open>
  Library functions the conversion calls and this theory does not define:
  \<open>json.Unmarshal\<close> into a \<open>[]interface{}\<close> (\<open>None\<close> is its error), \<open>big.Rat.SetString\<close>
  (\<open>None\<close> is its failure) and the conversion \<open>float32(x)\<close> of a \<open>float64\<close>.
\<close>

record libs =
  json_Unmarshal :: "string \<Rightarrow> go_value list option"
  rat_SetString :: "string \<Rightarrow> rat option"
  float32_of_float64 :: "64 word \<Rightarrow> 32 word"

subsection \<open>UUIDs (\<open>github.com/google/uuid\<close>)\<close>

text \<open>
  \<open>uuid.FromBytes\<close> accepts exactly 16 bytes. \<open>UUID.String\<close> is the canonical text form:
  the bytes in lower-case hexadecimal, in groups of 4, 2, 2, 2 and 6 bytes separated by
  hyphens.
\<close>

definition hex_digit :: "nat \<Rightarrow> char" where
  "hex_digit n = ''0123456789abcdef'' ! (n mod 16)"

definition hex_Encode :: "byte list \<Rightarrow> string" where
  "hex_Encode bs = concat (map (\<lambda>b. [hex_digit (unat b div 16), hex_digit (unat b mod 16)]) bs)"

definition uuid_FromBytes :: "byte list \<Rightarrow> failure + byte list" where
  "uuid_FromBytes b = (if length b \<noteq> 16 then Inl (Err ''invalid UUID'') else Inr b)"

definition uuid_String :: "byte list \<Rightarrow> string" where
  "uuid_String u =
     hex_Encode (take 4 u) @ ''-'' @ hex_Encode (take 2 (drop 4 u)) @ ''-''
     @ hex_Encode (take 2 (drop 6 u)) @ ''-'' @ hex_Encode (take 2 (drop 8 u)) @ ''-''
     @ hex_Encode (drop 10 u)"

subsection \<open>\<open>toQValueArray\<close>\<close>

text \<open>
  For each array kind: a typed slice is taken as it is; a \<open>[]interface{}\<close> is copied
  element by element with the type assertion \<open>val.(T)\<close>, which panics on an element of
  another type; anything else is an error. For a kind that is not one of the six array
  kinds no case of the switch is taken and \<open>result\<close> stays nil.
\<close>

fun as_float32 :: "go_value \<Rightarrow> 32 word option" where
  "as_float32 (GoFloat32 x) = Some x" | "as_float32 v = None"

fun as_float64 :: "go_value \<Rightarrow> 64 word option" where
  "as_float64 (GoFloat64 x) = Some x" | "as_float64 v = None"

fun as_int16 :: "go_value \<Rightarrow> 16 word option" where
  "as_int16 (GoInt16 x) = Some x" | "as_int16 v = None"

fun as_int32 :: "go_value \<Rightarrow> int32 option" where
  "as_int32 (GoInt32 x) = Some x" | "as_int32 v = None"

fun as_int64 :: "go_value \<Rightarrow> int64 option" where
  "as_int64 (GoInt64 x) = Some x" | "as_int64 v = None"

fun as_string :: "go_value \<Rightarrow> string option" where
  "as_string (GoString x) = Some x" | "as_string v = None"

definition assert_slice ::
  "QValueKind \<Rightarrow> (go_value \<Rightarrow> 'a option) \<Rightarrow> ('a list \<Rightarrow> go_value) \<Rightarrow> go_value list \<Rightarrow> failure + QValue" where
  "assert_slice kind as_T slice_T v =
     (case those (map as_T v) of
        None \<Rightarrow> Inl (Panic ''interface conversion'')
      | Some arr \<Rightarrow> Inr \<lparr> Kind = kind, Value = slice_T arr \<rparr>)"

definition toQValueArray :: "QValueKind \<Rightarrow> go_value \<Rightarrow> failure + QValue" where
  "toQValueArray kind val =
     (if kind = QValueKindArrayFloat32 then
        (case val of
           GoSliceFloat32 v \<Rightarrow> Inr \<lparr> Kind = kind, Value = GoSliceFloat32 v \<rparr>
         | GoSlice v \<Rightarrow> assert_slice kind as_float32 GoSliceFloat32 v
         | _ \<Rightarrow> Inl (Err ''failed to parse array float32''))
      else if kind = QValueKindArrayFloat64 then
        (case val of
           GoSliceFloat64 v \<Rightarrow> Inr \<lparr> Kind = kind, Value = GoSliceFloat64 v \<rparr>
         | GoSlice v \<Rightarrow> assert_slice kind as_float64 GoSliceFloat64 v
         | _ \<Rightarrow> Inl (Err ''failed to parse array float64''))
      else if kind = QValueKindArrayInt16 then
        (case val of
           GoSliceInt16 v \<Rightarrow> Inr \<lparr> Kind = kind, Value = GoSliceInt16 v \<rparr>
         | GoSlice v \<Rightarrow> assert_slice kind as_int16 GoSliceInt16 v
         | _ \<Rightarrow> Inl (Err ''failed to parse array int16''))
      else if kind = QValueKindArrayInt32 then
        (case val of
           GoSliceInt32 v \<Rightarrow> Inr \<lparr> Kind = kind, Value = GoSliceInt32 v \<rparr>
         | GoSlice v \<Rightarrow> assert_slice kind as_int32 GoSliceInt32 v
         | _ \<Rightarrow> Inl (Err ''failed to parse array int32''))
      else if kind = QValueKindArrayInt64 then
        (case val of
           GoSliceInt64 v \<Rightarrow> Inr \<lparr> Kind = kind, Value = GoSliceInt64 v \<rparr>
         | GoSlice v \<Rightarrow> assert_slice kind as_int64 GoSliceInt64 v
         | _ \<Rightarrow> Inl (Err ''failed to parse array int64''))
      else if kind = QValueKindArrayString then
        (case val of
           GoSliceString v \<Rightarrow> Inr \<lparr> Kind = kind, Value = GoSliceString v \<rparr>
         | GoSlice v \<Rightarrow> assert_slice kind as_string GoSliceString v
         | _ \<Rightarrow> Inl (Err ''failed to parse array string''))
      else Inr \<lparr> Kind = kind, Value = GoNil \<rparr>)"

subsection \<open>\<open>toQValue\<close>\<close>

text \<open>
  The type switch on the first element of a parsed JSON array, with \<open>QValueKindString\<close>
  as the kind when no case is taken.
\<close>

fun json_array_kind :: "go_value \<Rightarrow> QValueKind" where
  "json_array_kind (GoFloat32 x) = QValueKindArrayFloat32"
| "json_array_kind (GoFloat64 x) = QValueKindArrayFloat64"
| "json_array_kind (GoInt16 x) = QValueKindArrayInt16"
| "json_array_kind (GoInt32 x) = QValueKindArrayInt32"
| "json_array_kind (GoInt64 x) = QValueKindArrayInt64"
| "json_array_kind (GoString x) = QValueKindArrayString"
| "json_array_kind v = QValueKindString"

definition strings_HasPrefix :: "string \<Rightarrow> string \<Rightarrow> bool" where
  "strings_HasPrefix s prefix \<longleftrightarrow> take (length prefix) s = prefix"

text \<open>
  The case \<open>QValueKindJSON\<close>. The assertion \<open>val.(*interface{})\<close> has no second result,
  so another type panics, and so does reading through a nil pointer. A value behind the
  pointer that is not a string leaves \<open>vstring\<close> empty (the source only logs a warning).
\<close>

definition toQValue_JSON :: "libs \<Rightarrow> go_value \<Rightarrow> failure + QValue" where
  "toQValue_JSON L val =
     (case val of
        PInterface vraw \<Rightarrow>
          (case vraw of
             None \<Rightarrow> Inl (Panic ''nil pointer dereference'')
           | Some inner \<Rightarrow>
               (let vstring = (case as_string inner of Some s \<Rightarrow> s | None \<Rightarrow> []) in
                if strings_HasPrefix vstring ''['' then
                  (case json_Unmarshal L vstring of
                     None \<Rightarrow> Inl (Err ''failed to parse json array'')
                   | Some v \<Rightarrow>
                       (case v of
                          first # rest \<Rightarrow> toQValueArray (json_array_kind first) (GoSlice v)
                        | [] \<Rightarrow> Inr \<lparr> Kind = QValueKindJSON, Value = GoString vstring \<rparr>))
                else Inr \<lparr> Kind = QValueKindJSON, Value = GoString vstring \<rparr>))
      | _ \<Rightarrow> Inl (Panic ''interface conversion''))"

text \<open>
  The switch on the kind. A case whose type assertion fails returns nothing and control
  leaves the switch: that is \<open>None\<close> here, and \<open>toQValue\<close> turns it into the error after
  the switch. The cases for the kinds \<open>Bytes\<close>, \<open>Bit\<close> and \<open>UUID\<close> test the pointer
  against nil.
\<close>

definition toQValue_switch :: "libs \<Rightarrow> QValueKind \<Rightarrow> go_value \<Rightarrow> (failure + QValue) option" where
  "toQValue_switch L kind val =
     (if kind = QValueKindInt32 then
        (case val of
           PNullInt32 valid v \<Rightarrow>
             Some (Inr \<lparr> Kind = QValueKindInt32, Value = (if valid then GoInt32 v else GoNil) \<rparr>)
         | _ \<Rightarrow> None)
      else if kind = QValueKindInt64 then
        (case val of
           PNullInt64 valid v \<Rightarrow>
             Some (Inr \<lparr> Kind = QValueKindInt64, Value = (if valid then GoInt64 v else GoNil) \<rparr>)
         | _ \<Rightarrow> None)
      else if kind = QValueKindFloat32 then
        (case val of
           PNullFloat64 valid v \<Rightarrow>
             Some (Inr \<lparr> Kind = QValueKindFloat32,
                         Value = (if valid then GoFloat32 (float32_of_float64 L v) else GoNil) \<rparr>)
         | _ \<Rightarrow> None)
      else if kind = QValueKindFloat64 then
        (case val of
           PNullFloat64 valid v \<Rightarrow>
             Some (Inr \<lparr> Kind = QValueKindFloat64, Value = (if valid then GoFloat64 v else GoNil) \<rparr>)
         | _ \<Rightarrow> None)
      else if kind = QValueKindQChar then
        (case val of
           GoUint8 v \<Rightarrow> Some (Inr \<lparr> Kind = QValueKindQChar, Value = GoUint8 v \<rparr>)
         | _ \<Rightarrow> None)
      else if kind = QValueKindString then
        (case val of
           PNullString valid v \<Rightarrow>
             Some (Inr \<lparr> Kind = QValueKindString, Value = (if valid then GoString v else GoNil) \<rparr>)
         | _ \<Rightarrow> None)
      else if kind = QValueKindBoolean then
        (case val of
           PNullBool valid v \<Rightarrow>
             Some (Inr \<lparr> Kind = QValueKindBoolean, Value = (if valid then GoBool v else GoNil) \<rparr>)
         | _ \<Rightarrow> None)
      else if kind \<in> {QValueKindTimestamp, QValueKindTimestampTZ, QValueKindDate,
                       QValueKindTime, QValueKindTimeTZ} then
        (case val of
           PNullTime valid t \<Rightarrow>
             Some (Inr \<lparr> Kind = kind, Value = (if valid then GoTime t else GoNil) \<rparr>)
         | _ \<Rightarrow> None)
      else if kind = QValueKindNumeric then
        (case val of
           PNullString valid v \<Rightarrow>
             (if valid then
                (case rat_SetString L v of
                   None \<Rightarrow> Some (Inl (Err ''failed to parse numeric''))
                 | Some numeric \<Rightarrow> Some (Inr \<lparr> Kind = QValueKindNumeric, Value = GoRat numeric \<rparr>))
              else Some (Inr \<lparr> Kind = QValueKindNumeric, Value = GoNil \<rparr>))
         | _ \<Rightarrow> None)
      else if kind \<in> {QValueKindBytes, QValueKindBit} then
        (case val of
           PBytes (Some v) \<Rightarrow> Some (Inr \<lparr> Kind = kind, Value = GoBytes v \<rparr>)
         | _ \<Rightarrow> None)
      else if kind = QValueKindUUID then
        (case val of
           PBytes (Some v) \<Rightarrow>
             (case uuid_FromBytes v of
                Inl e \<Rightarrow> Some (Inl (Err ''failed to parse uuid''))
              | Inr uuidVal \<Rightarrow>
                  Some (Inr \<lparr> Kind = QValueKindString, Value = GoString (uuid_String uuidVal) \<rparr>))
         | PArray16 (Some v) \<Rightarrow> Some (Inr \<lparr> Kind = QValueKindString, Value = GoArray16 v \<rparr>)
         | _ \<Rightarrow> None)
      else if kind = QValueKindJSON then Some (toQValue_JSON L val)
      else if kind = QValueKindHStore then Some (Inr \<lparr> Kind = QValueKindHStore, Value = val \<rparr>)
      else if kind \<in> {QValueKindArrayFloat32, QValueKindArrayFloat64, QValueKindArrayInt16,
                       QValueKindArrayInt32, QValueKindArrayInt64, QValueKindArrayString} then
        Some (toQValueArray kind val)
      else None)"

definition toQValue :: "libs \<Rightarrow> QValueKind \<Rightarrow> go_value \<Rightarrow> failure + QValue" where
  "toQValue L kind val =
     (if val = GoNil then Inr \<lparr> Kind = kind, Value = GoNil \<rparr>
      else case toQValue_switch L kind val of
             Some result \<Rightarrow> result
           | None \<Rightarrow> Inl (Err ''unsupported type for kind''))"

text \<open>
  Inputs to run the conversion on: a JSON library that knows the parses of two texts (the
  empty array and an array of the numbers 1.5 and 2), and sixteen bytes.
\<close>

definition libs0 :: libs where
  "libs0 = \<lparr> json_Unmarshal =
               (\<lambda>s. if s = ''[]'' then Some []
                    else if s = ''[1.5,2]'' then Some [GoFloat64 0x3FF8000000000000, GoFloat64 0x4000000000000000]
                    else None),
             rat_SetString = (\<lambda>s. None),
             float32_of_float64 = (\<lambda>x. 0) \<rparr>"


section \<open>Initial flow state\<close>

text \<open>
  C9 (as amended). The state built for a flow's first run has status Running, the sentinel
  partition \<open>not-applicable-partition\<close> with no range, zero partitions processed, and
  \<open>NeedsResync\<close> set to true whatever the configuration says. The full-resync setting is
  consulted where the flag is used: on that first state the destination is redirected to
  the shadow table exactly when \<open>DstTableFullResync\<close> is set.
\<close>

theorem NewQRepFlowState_initial:
  "CurrentFlowStatus NewQRepFlowState = STATUS_RUNNING
   \<and> LastPartition NewQRepFlowState = \<lparr> PartitionId = ''not-applicable-partition'', Range' = None \<rparr>
   \<and> NumPartitionsProcessed NewQRepFlowState = 0
   \<and> NeedsResync NewQRepFlowState = True
   \<and> handleTableCreationForResync True config NewQRepFlowState =
       Inr (if DstTableFullResync config
            then config\<lparr>DestinationTableIdentifier := DestinationTableIdentifier config @ ''_peerdb_resync''\<rparr>
            else config)"
  by (simp add: NewQRepFlowState_def handleTableCreationForResync_def)

text \<open>
  The claim as written fails for a configuration without full resync: the flag of the
  initial state is true there too.
\<close>

theorem NewQRepFlowState_resync_counterexample:
  "NeedsResync NewQRepFlowState \<noteq>
     DstTableFullResync \<lparr> FlowJobName = ''mirror'', DestinationTableIdentifier = ''public.t'',
       DstTableFullResync = False, InitialCopyOnly = False, MaxParallelWorkers = 4 \<rparr>"
  by (simp add: NewQRepFlowState_def)

section \<open>Partition chunking\<close>

lemma batches_loop_concat: "0 < cs \<Longrightarrow> concat (batches_loop cs i ps) = drop i ps"
proof (induction cs i ps rule: batches_loop.induct)
  case (1 cs i ps)
  show ?case
  proof (cases "i < length ps \<and> 0 < cs")
    case True
    have "take cs (drop i ps) @ drop cs (drop i ps) = drop i ps"
      by (rule append_take_drop_id)
    then have "drop i ps = take cs (drop i ps) @ drop (i + cs) ps"
      by (simp add: add.commute)
    moreover have "take (min (i + cs) (length ps) - i) (drop i ps) = take cs (drop i ps)"
      by (simp add: min_def)
    ultimately show ?thesis
      using True "1.IH" "1.prems" by (subst batches_loop.simps) (simp add: Let_def)
  next
    case False
    then show ?thesis
      using "1.prems" by (subst batches_loop.simps) auto
  qed
qed

lemma batches_loop_sizes:
  "g \<in> set (batches_loop cs i ps) \<Longrightarrow> 1 \<le> length g \<and> length g \<le> cs"
proof (induction cs i ps rule: batches_loop.induct)
  case (1 cs i ps)
  show ?case
  proof (cases "i < length ps \<and> 0 < cs")
    case True
    from "1.prems" have "g = take (min (i + cs) (length ps) - i) (drop i ps)
        \<or> g \<in> set (batches_loop cs (i + cs) ps)"
      using True by (subst (asm) batches_loop.simps) (simp add: Let_def)
    then show ?thesis
    proof
      assume "g = take (min (i + cs) (length ps) - i) (drop i ps)"
      then show ?thesis using True by (auto simp: min_def)
    next
      assume "g \<in> set (batches_loop cs (i + cs) ps)"
      then show ?thesis using "1.IH" True by simp
    qed
  next
    case False
    then show ?thesis using "1.prems"
      by (subst (asm) batches_loop.simps) auto
  qed
qed

lemma batches_loop_full:
  "g \<in> set (butlast (batches_loop cs i ps)) \<Longrightarrow> length g = cs"
proof (induction cs i ps rule: batches_loop.induct)
  case (1 cs i ps)
  show ?case
  proof (cases "i < length ps \<and> 0 < cs")
    case True
    note T = True
    show ?thesis
    proof (cases "batches_loop cs (i + cs) ps = []")
      case True
      then have "butlast (batches_loop cs i ps) = []"
        using T by (subst batches_loop.simps) (simp add: Let_def)
      then show ?thesis using "1.prems" by simp
    next
      case False
      then have more: "i + cs < length ps"
        by (subst (asm) batches_loop.simps) (auto split: if_splits)
      have "butlast (batches_loop cs i ps) =
          take (min (i + cs) (length ps) - i) (drop i ps) # butlast (batches_loop cs (i + cs) ps)"
        using T False by (subst batches_loop.simps) (simp add: Let_def)
      with "1.prems" have "g = take (min (i + cs) (length ps) - i) (drop i ps)
          \<or> g \<in> set (butlast (batches_loop cs (i + cs) ps))"
        by simp
      then show ?thesis
      proof
        assume "g = take (min (i + cs) (length ps) - i) (drop i ps)"
        then show ?thesis using more by (auto simp: min_def)
      next
        assume "g \<in> set (butlast (batches_loop cs (i + cs) ps))"
        then show ?thesis using "1.IH" T by simp
      qed
    qed
  next
    case False
    then have "batches_loop cs i ps = []"
      by (subst batches_loop.simps) auto
    then show ?thesis using "1.prems" by simp
  qed
qed

lemma batches_loop_length:
  "0 < cs \<Longrightarrow> length (batches_loop cs i ps) * cs < length ps - i + cs"
proof (induction cs i ps rule: batches_loop.induct)
  case (1 cs i ps)
  show ?case
  proof (cases "i < length ps \<and> 0 < cs")
    case True
    then have "length (batches_loop cs i ps) = Suc (length (batches_loop cs (i + cs) ps))"
      by (subst batches_loop.simps) (simp add: Let_def)
    moreover have "length (batches_loop cs (i + cs) ps) * cs < length ps - (i + cs) + cs"
      using "1.IH" True by simp
    ultimately show ?thesis using True
      by (cases "i + cs \<le> length ps") (auto simp: batches_loop.simps [of cs "i + cs" ps])
  next
    case False
    then have "batches_loop cs i ps = []"
      by (subst batches_loop.simps) auto
    then show ?thesis using "1.prems" by simp
  qed
qed

text \<open>The worker count \<open>QRepFlowWorkflow\<close> passes is never zero.\<close>

lemma maxParallelWorkers_pos: "1 \<le> maxParallelWorkers config"
  by (simp add: maxParallelWorkers_def word_greater_zero_iff unat_gt_0 Suc_leI)

lemma DivCeil_pos: "0 < p \<Longrightarrow> 0 < w \<Longrightarrow> 0 < DivCeil p w"
  by (simp add: DivCeil_def div_greater_zero_iff)

lemma DivCeil_cover: "0 < w \<Longrightarrow> p \<le> DivCeil p w * w"
proof -
  assume w: "0 < w"
  have "p + w - 1 = (p + w - 1) div w * w + (p + w - 1) mod w"
    by simp
  moreover have "(p + w - 1) mod w \<le> w - 1"
    using w by (metis less_Suc_eq_le mod_less_divisor Suc_diff_1)
  ultimately have "p + w - 1 \<le> (p + w - 1) div w * w + (w - 1)"
    by linarith
  then show ?thesis using w by (simp add: DivCeil_def)
qed

lemma batches_count:
  assumes "0 < w" "ps \<noteq> []"
  shows "length (batches_loop (DivCeil (length ps) w) 0 ps) \<le> w"
proof -
  let ?cs = "DivCeil (length ps) w"
  let ?n = "length (batches_loop ?cs 0 ps)"
  have cs: "0 < ?cs" using assms by (simp add: DivCeil_pos)
  have "?n * ?cs < length ps + ?cs"
    using batches_loop_length [OF cs, of 0 ps] by simp
  also have "\<dots> \<le> ?cs * w + ?cs"
    using DivCeil_cover [OF assms(1), of "length ps"] by (simp add: mult.commute)
  also have "\<dots> = (w + 1) * ?cs" by simp
  finally have "?n * ?cs < (w + 1) * ?cs" .
  then have "?n < w + 1" by (simp only: mult_less_cancel2)
  then show ?thesis by simp
qed

lemma started_partitions:
  "map Partitions (map (\<lambda>(i, parts). \<lparr> Partitions = parts, BatchId = of_nat (i + 1) \<rparr>) (enumerate n bs)) = bs"
  by (induction bs arbitrary: n) auto

text \<open>
  C5 (as amended). For every non-empty list of partitions and every worker count of at
  least 1, \<open>processPartitions\<close> does not panic and hands out at most \<open>maxWorkers\<close> groups;
  their in-order concatenation is the partition list; every group is non-empty and has at
  most the ceiling-division chunk size; every group but the last has exactly the chunk
  size. (The sizes of two groups can differ by more than one: the last group takes what
  is left.)
\<close>

theorem processPartitions_chunks:
  assumes "partitions \<noteq> []" and "1 \<le> maxWorkers"
  shows "let chunkSize = DivCeil (length partitions) maxWorkers;
             started = fst (processPartitions child_ok maxWorkers partitions);
             groups = map Partitions started
         in length groups \<le> maxWorkers
            \<and> concat groups = partitions
            \<and> (\<forall>g \<in> set groups. 1 \<le> length g \<and> length g \<le> chunkSize)
            \<and> (\<forall>g \<in> set (butlast groups). length g = chunkSize)
            \<and> snd (processPartitions child_ok maxWorkers partitions) \<noteq> Some (Panic ''integer divide by zero'')"
proof -
  let ?cs = "DivCeil (length partitions) maxWorkers"
  let ?bs = "batches_loop ?cs 0 partitions"
  let ?started = "map (\<lambda>(i, parts). \<lparr> Partitions = parts, BatchId = of_nat (i + 1) \<rparr>) (enumerate 0 ?bs)"
  have cs: "0 < ?cs" using assms by (simp add: DivCeil_pos)
  have fst_eq: "fst (processPartitions child_ok maxWorkers partitions) = ?started"
    using cs by (simp add: processPartitions_def Let_def)
  have snd_ok: "snd (processPartitions child_ok maxWorkers partitions) \<noteq> Some (Panic ''integer divide by zero'')"
    using cs by (simp add: processPartitions_def Let_def)
  have groups: "map Partitions ?started = ?bs"
    by (rule started_partitions)
  have n: "length ?bs \<le> maxWorkers"
    using assms by (intro batches_count) auto
  have c: "concat ?bs = partitions"
    using batches_loop_concat [OF cs, of 0 partitions] by simp
  have s: "\<forall>g \<in> set ?bs. 1 \<le> length g \<and> length g \<le> ?cs"
    using batches_loop_sizes by blast
  have f: "\<forall>g \<in> set (butlast ?bs). length g = ?cs"
    using batches_loop_full by blast
  show ?thesis
    unfolding Let_def fst_eq groups using n c s f snd_ok by simp
qed

theorem processPartitions_chunks_witness:
  "ten_partitions \<noteq> [] \<and> (1::nat) \<le> 4
   \<and> length (map Partitions (fst (processPartitions (\<lambda>b. True) 4 ten_partitions))) \<le> 4
   \<and> concat (map Partitions (fst (processPartitions (\<lambda>b. True) 4 ten_partitions))) = ten_partitions"
proof -
  have ne: "ten_partitions \<noteq> []" by (simp add: ten_partitions_def upt_rec)
  have w: "(1::nat) \<le> 4" by simp
  show ?thesis
    using processPartitions_chunks [OF ne w, of "\<lambda>b. True"] ne by (simp add: Let_def)
qed

text \<open>
  The claim as written fails on ten partitions and four workers: the chunk size is 3, the
  groups have 3, 3, 3 and 1 partitions, and 3 and 1 differ by two.
\<close>

theorem processPartitions_sizes_counterexample:
  "map (length \<circ> Partitions) (fst (processPartitions (\<lambda>b. True) 4 ten_partitions)) = [3, 3, 3, 1]
   \<and> snd (processPartitions (\<lambda>b. True) 4 ten_partitions) = None"
  by code_simp

text \<open>
  On the empty partition list the chunk size is 0 and the capacity computation divides by
  it: the function panics before any group is formed.
\<close>

lemma processPartitions_empty:
  "processPartitions child_ok maxWorkers [] = ([], Some (Panic ''integer divide by zero''))"
  by (cases maxWorkers) (simp_all add: processPartitions_def DivCeil_def)

section \<open>Pause and resume\<close>

lemma pause_loop_not_paused:
  "a \<noteq> PauseSignal \<Longrightarrow> pause_loop h a rs = Resumed a"
  by (cases rs) auto

lemma pause_loop_resume:
  assumes "\<forall>e \<in> set waits. e = TimedOut \<or> (\<exists>v. e = Received v \<and> h PauseSignal v = PauseSignal)"
      and "h PauseSignal r \<noteq> PauseSignal"
  shows "pause_loop h PauseSignal (waits @ Received r # later) = Resumed (h PauseSignal r)"
  using assms
proof (induction waits)
  case Nil
  then show ?case by (simp add: pause_loop_not_paused)
next
  case (Cons e waits)
  then show ?case by auto
qed

text \<open>
  C6 (as amended). If the pause signal is observed by the non-blocking receive and a
  resume arrives later (after any number of timeouts and of signals that leave the flow
  paused), both workflows continue as new with a state that differs from the state before
  the pause in one field only: \<open>CurrentFlowStatus\<close>, which the pause handling sets to
  \<open>STATUS_PAUSED\<close>. The last partition, the number of partitions processed, the resync
  flag and the wait flag are unchanged.
\<close>

theorem pause_resume_state:
  assumes "handler NoopSignal p = PauseSignal"
      and "\<forall>e \<in> set waits. e = TimedOut \<or> (\<exists>v. e = Received v \<and> handler PauseSignal v = PauseSignal)"
      and "handler PauseSignal r \<noteq> PauseSignal"
  shows "QRepFlowWorkflow_signals handler (Some p) (waits @ Received r # later) False state
           = ContinueAsNew (state\<lparr>CurrentFlowStatus := STATUS_PAUSED\<rparr>)
         \<and> XminFlowWorkflow_signals handler (Some p) (waits @ Received r # later) False state
           = ContinueAsNew (state\<lparr>CurrentFlowStatus := STATUS_PAUSED\<rparr>)
         \<and> LastPartition (state\<lparr>CurrentFlowStatus := STATUS_PAUSED\<rparr>) = LastPartition state
         \<and> NumPartitionsProcessed (state\<lparr>CurrentFlowStatus := STATUS_PAUSED\<rparr>) = NumPartitionsProcessed state
         \<and> NeedsResync (state\<lparr>CurrentFlowStatus := STATUS_PAUSED\<rparr>) = NeedsResync state
         \<and> DisableWaitForNewRows (state\<lparr>CurrentFlowStatus := STATUS_PAUSED\<rparr>) = DisableWaitForNewRows state"
proof -
  have "pause_loop handler PauseSignal (waits @ Received r # later) = Resumed (handler PauseSignal r)"
    using assms(2,3) by (rule pause_loop_resume)
  then show ?thesis
    using assms(1) by (simp add: QRepFlowWorkflow_signals_def XminFlowWorkflow_signals_def)
qed

theorem pause_resume_state_witness:
  "latest_wins NoopSignal PauseSignal = PauseSignal
   \<and> latest_wins PauseSignal NoopSignal \<noteq> PauseSignal
   \<and> QRepFlowWorkflow_signals latest_wins (Some PauseSignal) ([TimedOut, Received PauseSignal] @ Received NoopSignal # []) False
        NewQRepFlowStateForTesting
      = ContinueAsNew (NewQRepFlowStateForTesting\<lparr>CurrentFlowStatus := STATUS_PAUSED\<rparr>)"
proof -
  have a: "latest_wins NoopSignal PauseSignal = PauseSignal" by (simp add: latest_wins_def)
  have b: "\<forall>e \<in> set [TimedOut, Received PauseSignal].
      e = TimedOut \<or> (\<exists>v. e = Received v \<and> latest_wins PauseSignal v = PauseSignal)"
    by (simp add: latest_wins_def)
  have c: "latest_wins PauseSignal NoopSignal \<noteq> PauseSignal" by (simp add: latest_wins_def)
  show ?thesis
    using pause_resume_state [OF a b c, of "[]" NewQRepFlowStateForTesting] a c by simp
qed

text \<open>
  The claim as written fails on the status field: a running flow that is paused and
  resumed carries \<open>STATUS_PAUSED\<close> into the continuation.
\<close>

theorem pause_resume_status_counterexample:
  "QRepFlowWorkflow_signals latest_wins (Some PauseSignal) [TimedOut, Received NoopSignal] False NewQRepFlowState
     = ContinueAsNew (NewQRepFlowState\<lparr>CurrentFlowStatus := STATUS_PAUSED\<rparr>)
   \<and> CurrentFlowStatus NewQRepFlowState = STATUS_RUNNING
   \<and> NewQRepFlowState\<lparr>CurrentFlowStatus := STATUS_PAUSED\<rparr> \<noteq> NewQRepFlowState"
  by (simp add: QRepFlowWorkflow_signals_def latest_wins_def NewQRepFlowState_def)

section \<open>Merge statements: unchanged columns and soft delete\<close>

lemma set_columns_other:
  "c \<notin> fst ` set asg \<Longrightarrow> set_columns now d asg row c = row c"
  unfolding set_columns_def
  by (induction asg arbitrary: row) auto

lemma set_columns_snoc:
  "set_columns now d (asg @ [(c1, e1)]) row = (set_columns now d asg row)(c1 \<mapsto> eval_expr now d e1)"
  by (simp add: set_columns_def)

lemma set_columns_same:
  "c \<in> fst ` set asg \<Longrightarrow> \<forall>e. (c, e) \<in> set asg \<longrightarrow> eval_expr now d e = v \<Longrightarrow>
     set_columns now d asg row c = Some v"
proof (induction asg rule: rev_induct)
  case Nil
  then show ?case by simp
next
  case (snoc a asg)
  obtain c1 e1 where a: "a = (c1, e1)" by (cases a)
  show ?case
  proof (cases "c1 = c")
    case True
    then show ?thesis using snoc.prems a by (simp add: set_columns_snoc)
  next
    case False
    then have "c \<in> fst ` set asg" using snoc.prems(1) a by auto
    moreover have "\<forall>e. (c, e) \<in> set asg \<longrightarrow> eval_expr now d e = v" using snoc.prems(2) by simp
    ultimately have "set_columns now d asg row c = Some v"
      by (rule snoc.IH)
    then show ?thesis using False a by (simp add: set_columns_snoc)
  qed
qed

lemma set_columns_last:
  "set_columns now d (asg @ [(c, e)]) row c = Some (eval_expr now d e)"
  by (simp add: set_columns_def)

lemma merge_row_cases:
  assumes "\<exists>w \<in> set ws. when_applies w d ex"
      and "\<forall>w \<in> set ws. when_applies w d ex \<longrightarrow> Q (run_action now d (when_then w) ex)"
  shows "Q (merge_row ws now d ex)"
  using assms by (induction ws) auto

lemma map_enumerate_snd: "map (\<lambda>(i, x). f x) (enumerate n xs) = map f xs"
  by (induction xs arbitrary: n) auto

lemma update_assignments_targets:
  "map fst (update_assignments m allCols cols) =
     ArrayMinus allCols (strings_Split cols (CHR '',''))
     @ (if SyncedAtColName (peerdbCols m) \<noteq> [] then [SyncedAtColName (peerdbCols m)] else [])
     @ (if handleSoftDelete m then [SoftDeleteColName (peerdbCols m)] else [])"
  by (simp add: update_assignments_def Let_def comp_def)

lemma update_assignments_rhs:
  "(c, e) \<in> set (update_assignments m allCols cols) \<Longrightarrow>
     (c \<in> set (ArrayMinus allCols (strings_Split cols (CHR '',''))) \<and> e = SrcCol (shortColumn m c))
     \<or> (c = SyncedAtColName (peerdbCols m) \<and> c \<noteq> [] \<and> e = CURRENT_TIMESTAMP)
     \<or> (c = SoftDeleteColName (peerdbCols m) \<and> handleSoftDelete m \<and> e = LitFALSE)"
  by (auto simp: update_assignments_def Let_def split: if_splits)

lemma update_assignments_soft:
  "handleSoftDelete m \<Longrightarrow> \<exists>asg. update_assignments m allCols cols = asg @ [(SoftDeleteColName (peerdbCols m), LitFALSE)]"
  by (simp add: update_assignments_def Let_def)

lemma merge_whens_set:
  assumes "generateMergeStmt bq_type m utc = (stmt, m1)"
  defines "allCols \<equiv> map Name (Columns (normalizedTableSchema m))"
  defines "sd \<equiv> SoftDeleteColName (peerdbCols m)"
  defines "shorts \<equiv> map (\<lambda>(i, col). ''_c'' @ string_of_nat i) (enumerate 0 (Columns (normalizedTableSchema m)))"
  shows "peerdbCols m1 = peerdbCols m"
    and "set (merge_whens stmt) =
      {\<lparr> when_matched = False, when_rt = RtNotDelete, when_ut = None,
         when_then = InsertValues (allCols @ [SyncedAtColName (peerdbCols m)]) (map SrcCol shorts @ [CURRENT_TIMESTAMP]) \<rparr>}
      \<union> (\<Union>u \<in> set utc. set (update_statements_for m1 allCols u))
      \<union> (if SoftDelete (peerdbCols m) then
            {\<lparr> when_matched = False, when_rt = RtIsDelete, when_ut = None,
               when_then = InsertValues (allCols @ [SyncedAtColName (peerdbCols m)] @ [sd])
                             (map SrcCol shorts @ [CURRENT_TIMESTAMP] @ [LitTRUE]) \<rparr>} else {})
      \<union> {\<lparr> when_matched = True, when_rt = RtIsDelete, when_ut = None,
           when_then = (if SoftDelete (peerdbCols m)
              then UpdateSet ((sd, LitTRUE) # (if SyncedAtColName (peerdbCols m) \<noteq> []
                       then [(SyncedAtColName (peerdbCols m), CURRENT_TIMESTAMP)] else []))
              else DeleteRow) \<rparr>}"
proof -
  show "peerdbCols m1 = peerdbCols m"
    using assms(1) by (auto simp: generateMergeStmt_def Let_def)
  show "set (merge_whens stmt) = {\<lparr> when_matched = False, when_rt = RtNotDelete, when_ut = None,
         when_then = InsertValues (allCols @ [SyncedAtColName (peerdbCols m)]) (map SrcCol shorts @ [CURRENT_TIMESTAMP]) \<rparr>}
      \<union> (\<Union>u \<in> set utc. set (update_statements_for m1 allCols u))
      \<union> (if SoftDelete (peerdbCols m) then
            {\<lparr> when_matched = False, when_rt = RtIsDelete, when_ut = None,
               when_then = InsertValues (allCols @ [SyncedAtColName (peerdbCols m)] @ [sd])
                             (map SrcCol shorts @ [CURRENT_TIMESTAMP] @ [LitTRUE]) \<rparr>} else {})
      \<union> {\<lparr> when_matched = True, when_rt = RtIsDelete, when_ut = None,
           when_then = (if SoftDelete (peerdbCols m)
              then UpdateSet ((sd, LitTRUE) # (if SyncedAtColName (peerdbCols m) \<noteq> []
                       then [(SyncedAtColName (peerdbCols m), CURRENT_TIMESTAMP)] else []))
              else DeleteRow) \<rparr>}"
    using assms(1) unfolding allCols_def sd_def shorts_def
    by (auto simp: generateMergeStmt_def Let_def generateUpdateStatements_def map_enumerate_snd)
qed

lemma update_statements_for_set:
  "set (update_statements_for m allCols u) =
     {\<lparr> when_matched = True, when_rt = RtNotDelete, when_ut = Some u,
        when_then = UpdateSet (update_assignments m allCols u) \<rparr>}
     \<union> (if handleSoftDelete m then
          {\<lparr> when_matched = True, when_rt = RtIsDelete, when_ut = Some u,
             when_then = UpdateSet (butlast (update_assignments m allCols u)
                            @ [(SoftDeleteColName (peerdbCols m), LitTRUE)]) \<rparr>} else {})"
  by (auto simp: update_statements_for_def Let_def)

lemma upsert_applies:
  assumes gen: "generateMergeStmt bq_type m utc = (stmt, m1)"
      and rt: "src_rt d \<noteq> 2" and ut: "src_ut d \<in> set utc"
  shows "merge_row (merge_whens stmt) now d (Some row) =
           Some (set_columns now d
                  (update_assignments m1 (map Name (Columns (normalizedTableSchema m))) (src_ut d)) row)"
proof -
  let ?allCols = "map Name (Columns (normalizedTableSchema m))"
  let ?asg = "update_assignments m1 ?allCols (src_ut d)"
  let ?upd = "\<lparr> when_matched = True, when_rt = RtNotDelete, when_ut = Some (src_ut d),
        when_then = UpdateSet ?asg \<rparr>"
  note whens = merge_whens_set(2) [OF gen]
  have "?upd \<in> set (update_statements_for m1 ?allCols (src_ut d))"
    by (simp add: update_statements_for_set)
  then have "?upd \<in> set (merge_whens stmt)"
    using ut unfolding whens by blast
  moreover have "when_applies ?upd d (Some row)"
    using rt by (simp add: when_applies_def)
  ultimately have ex: "\<exists>w \<in> set (merge_whens stmt). when_applies w d (Some row)"
    by blast
  have all: "\<forall>w \<in> set (merge_whens stmt). when_applies w d (Some row) \<longrightarrow>
      run_action now d (when_then w) (Some row) = Some (set_columns now d ?asg row)"
  proof (intro ballI impI)
    fix w assume w: "w \<in> set (merge_whens stmt)" and ap: "when_applies w d (Some row)"
    from ap rt have m: "when_matched w" and r: "when_rt w = RtNotDelete"
      by (auto simp: when_applies_def split: rt_test.splits)
    from w obtain u where "u \<in> set utc" "w \<in> set (update_statements_for m1 ?allCols u)"
      unfolding whens using m r by (auto split: if_splits)
    then have "w = \<lparr> when_matched = True, when_rt = RtNotDelete, when_ut = Some u,
        when_then = UpdateSet (update_assignments m1 ?allCols u) \<rparr>"
      using r by (auto simp: update_statements_for_set split: if_splits)
    moreover from this ap have "src_ut d = u" by (simp add: when_applies_def)
    ultimately show "run_action now d (when_then w) (Some row) = Some (set_columns now d ?asg row)"
      by simp
  qed
  show ?thesis
    by (rule merge_row_cases [OF ex all])
qed

text \<open>
  C3. For a record that is not a delete and whose unchanged columns are \<open>cols\<close> (one of
  the groups the statement was generated for), the update branch generated for \<open>cols\<close> is
  part of the merge statement; it assigns exactly the destination columns that are not
  among the unchanged ones, then the synced-at column (when it has a name) and the
  soft-delete column (when soft delete is handled); it is the branch applied to a matched
  row; and every unchanged column other than those two bookkeeping columns has the same
  value in the row after the statement as before.
\<close>

theorem unchanged_columns_kept:
  assumes "cols \<in> set unchangedToastColumns"
      and "src_rt d \<noteq> 2" and "src_ut d = cols"
  shows "let stmt = fst (generateMergeStmt bq_type m unchangedToastColumns);
             m1 = snd (generateMergeStmt bq_type m unchangedToastColumns);
             allCols = map Name (Columns (normalizedTableSchema m));
             U = strings_Split cols (CHR '','');
             asg = update_assignments m1 allCols cols
         in \<lparr> when_matched = True, when_rt = RtNotDelete, when_ut = Some cols, when_then = UpdateSet asg \<rparr>
              \<in> set (generateUpdateStatements m1 allCols unchangedToastColumns)
          \<and> set (generateUpdateStatements m1 allCols unchangedToastColumns) \<subseteq> set (merge_whens stmt)
          \<and> map fst asg =
               ArrayMinus allCols U
               @ (if SyncedAtColName (peerdbCols m) \<noteq> [] then [SyncedAtColName (peerdbCols m)] else [])
               @ (if handleSoftDelete m then [SoftDeleteColName (peerdbCols m)] else [])
          \<and> merge_row (merge_whens stmt) now d (Some row) = Some (set_columns now d asg row)
          \<and> (\<forall>c \<in> set U. c \<noteq> SyncedAtColName (peerdbCols m)
                \<longrightarrow> (handleSoftDelete m \<longrightarrow> c \<noteq> SoftDeleteColName (peerdbCols m))
                \<longrightarrow> set_columns now d asg row c = row c)"
proof -
  obtain stmt m1 where gen: "generateMergeStmt bq_type m unchangedToastColumns = (stmt, m1)"
    by (cases "generateMergeStmt bq_type m unchangedToastColumns")
  let ?allCols = "map Name (Columns (normalizedTableSchema m))"
  let ?U = "strings_Split cols (CHR '','')"
  let ?asg = "update_assignments m1 ?allCols cols"
  note whens = merge_whens_set(2) [OF gen]
  have pc: "peerdbCols m1 = peerdbCols m" by (rule merge_whens_set(1) [OF gen])
  have hs: "handleSoftDelete m1 = handleSoftDelete m" by (simp add: handleSoftDelete_def pc)
  have a: "\<lparr> when_matched = True, when_rt = RtNotDelete, when_ut = Some cols, when_then = UpdateSet ?asg \<rparr>
      \<in> set (generateUpdateStatements m1 ?allCols unchangedToastColumns)"
    using assms(1) by (auto simp: generateUpdateStatements_def update_statements_for_set)
  have b: "set (generateUpdateStatements m1 ?allCols unchangedToastColumns) \<subseteq> set (merge_whens stmt)"
    unfolding whens by (auto simp: generateUpdateStatements_def)
  have c: "map fst ?asg = ArrayMinus ?allCols ?U
               @ (if SyncedAtColName (peerdbCols m) \<noteq> [] then [SyncedAtColName (peerdbCols m)] else [])
               @ (if handleSoftDelete m then [SoftDeleteColName (peerdbCols m)] else [])"
    using update_assignments_targets [of m1 ?allCols cols] by (simp add: pc hs)
  have d: "merge_row (merge_whens stmt) now d (Some row) = Some (set_columns now d ?asg row)"
    using upsert_applies [OF gen assms(2), of now row] assms(1,3) by simp
  have e: "\<forall>c \<in> set ?U. c \<noteq> SyncedAtColName (peerdbCols m)
                \<longrightarrow> (handleSoftDelete m \<longrightarrow> c \<noteq> SoftDeleteColName (peerdbCols m))
                \<longrightarrow> set_columns now d ?asg row c = row c"
  proof (intro ballI impI)
    fix c assume "c \<in> set ?U" "c \<noteq> SyncedAtColName (peerdbCols m)"
      "handleSoftDelete m \<longrightarrow> c \<noteq> SoftDeleteColName (peerdbCols m)"
    then have "c \<notin> set (map fst ?asg)"
      unfolding c by (auto simp: ArrayMinus_def)
    then show "set_columns now d ?asg row c = row c"
      by (intro set_columns_other) simp
  qed
  show ?thesis
    using a b c d e by (simp add: gen Let_def)
qed

theorem unchanged_columns_kept_witness:
  "''b'' \<in> set [''b'', []] \<and> src_rt update_b_unchanged \<noteq> 2 \<and> src_ut update_b_unchanged = ''b''
   \<and> map fst (update_assignments (snd (generateMergeStmt bq_type0 gen0 [''b'', []])) [''id'', ''a'', ''b''] ''b'')
        = [''id'', ''a'', ''_peerdb_synced_at'', ''_peerdb_is_deleted'']
   \<and> map (the (merge_row (merge_whens (fst (generateMergeStmt bq_type0 gen0 [''b'', []]))) 7
                  update_b_unchanged (Some dest_row0))) [''id'', ''a'', ''b'']
        = [Some (VData ''1''), Some (VData ''new-a''), Some (VData ''old-b'')]"
proof -
  have h1: "''b'' \<in> set [''b'', []]" by simp
  have h2: "src_rt update_b_unchanged \<noteq> 2" by (simp add: update_b_unchanged_def)
  have h3: "src_ut update_b_unchanged = ''b''" by (simp add: update_b_unchanged_def)
  have ev1: "map fst (update_assignments (snd (generateMergeStmt bq_type0 gen0 [''b'', []])) [''id'', ''a'', ''b''] ''b'')
        = [''id'', ''a'', ''_peerdb_synced_at'', ''_peerdb_is_deleted'']"
    by code_simp
  have ev2: "map (the (merge_row (merge_whens (fst (generateMergeStmt bq_type0 gen0 [''b'', []]))) 7
                  update_b_unchanged (Some dest_row0))) [''id'', ''a'', ''b'']
        = [Some (VData ''1''), Some (VData ''new-a''), Some (VData ''old-b'')]"
    by code_simp
  show ?thesis
    using unchanged_columns_kept [OF h1 h2 h3, of bq_type0 gen0 7 dest_row0] h1 h2 h3 ev1 ev2
    by simp
qed

lemma zip_snoc_last:
  "length xs = length ys \<Longrightarrow> zip (xs @ [x]) (ys @ [y]) = zip xs ys @ [(x, y)]"
  by simp

lemma no_true_in_insert:
  "(c, LitTRUE) \<notin> set (zip cols (map SrcCol shorts @ [CURRENT_TIMESTAMP]))"
  by (auto dest!: set_zip_rightD)

lemma no_true_in_update: "(c, LitTRUE) \<notin> set (update_assignments m allCols cols)"
  by (auto dest: update_assignments_rhs)

text \<open>
  C4. With soft delete configured (the flag set and the column named): every matched
  branch of the merge statement for records that are not deletes is an update whose last
  assignment sets the soft-delete column to \<open>FALSE\<close>, and it never writes \<open>TRUE\<close> into it;
  every branch that writes \<open>TRUE\<close> into the soft-delete column is a branch for delete
  records. So a delete record applied to a row (or to no row) leaves a row with the marker
  set, and an insert or update record applied to that row afterwards leaves a row with the
  marker \<open>FALSE\<close> and, in every column the record carries, the record's value. When both
  records are in the same pass, the de-duplication drops the delete, which has the smaller
  timestamp.
\<close>

theorem soft_delete_round_trip:
  assumes "handleSoftDelete m"
  shows "let stmtD = fst (generateMergeStmt bq_type m toastD);
             stmtU = fst (generateMergeStmt bq_type m toastU);
             m1 = snd (generateMergeStmt bq_type m toastU);
             sd = SoftDeleteColName (peerdbCols m);
             allCols = map Name (Columns (normalizedTableSchema m))
         in (\<forall>w \<in> set (merge_whens stmtU). when_matched w \<and> when_rt w = RtNotDelete \<longrightarrow>
               (\<exists>asg. when_then w = UpdateSet (asg @ [(sd, LitFALSE)])) \<and> \<not> sets_true sd (when_then w))
          \<and> (\<forall>w \<in> set (merge_whens stmtU). sets_true sd (when_then w) \<longrightarrow> when_rt w = RtIsDelete)
          \<and> (src_rt del = 2 \<and> src_rt ups \<noteq> 2 \<and> src_ut ups \<in> set toastU \<longrightarrow>
               (\<exists>r1 r2. merge_row (merge_whens stmtD) now1 del existing = Some r1
                  \<and> (SyncedAtColName (peerdbCols m) \<noteq> sd \<longrightarrow> r1 sd = Some (VBool True))
                  \<and> merge_row (merge_whens stmtU) now2 ups (Some r1) = Some r2
                  \<and> r2 sd = Some (VBool False)
                  \<and> (\<forall>c \<in> set (ArrayMinus allCols (strings_Split (src_ut ups) (CHR '',''))).
                        c \<noteq> sd \<and> c \<noteq> SyncedAtColName (peerdbCols m) \<longrightarrow>
                        r2 c = Some (src_cols ups (shortColumn m1 c)))))
          \<and> (del \<in> set rows \<and> ups \<in> set rows
               \<and> map (src_cols del) (dd_partition_by (merge_dd stmtU)) = map (src_cols ups) (dd_partition_by (merge_dd stmtU))
               \<and> src_timestamp del < src_timestamp ups \<longrightarrow>
               del \<notin> set (deduped_rows (merge_dd stmtU) rows))"
proof -
  obtain stmtD mD where genD: "generateMergeStmt bq_type m toastD = (stmtD, mD)"
    by (cases "generateMergeStmt bq_type m toastD")
  obtain stmtU m1 where genU: "generateMergeStmt bq_type m toastU = (stmtU, m1)"
    by (cases "generateMergeStmt bq_type m toastU")
  let ?sd = "SoftDeleteColName (peerdbCols m)"
  let ?sy = "SyncedAtColName (peerdbCols m)"
  let ?allCols = "map Name (Columns (normalizedTableSchema m))"
  note whensU = merge_whens_set(2) [OF genU]
  note whensD = merge_whens_set(2) [OF genD]
  have pcU: "peerdbCols m1 = peerdbCols m" by (rule merge_whens_set(1) [OF genU])
  have pcD: "peerdbCols mD = peerdbCols m" by (rule merge_whens_set(1) [OF genD])
  have hsU: "handleSoftDelete m1" using assms by (simp add: handleSoftDelete_def pcU)
  have hsD: "handleSoftDelete mD" using assms by (simp add: handleSoftDelete_def pcD)
  have soft: "SoftDelete (peerdbCols m)" using assms by (simp add: handleSoftDelete_def)
  have a: "\<forall>w \<in> set (merge_whens stmtU). when_matched w \<and> when_rt w = RtNotDelete \<longrightarrow>
               (\<exists>asg. when_then w = UpdateSet (asg @ [(?sd, LitFALSE)])) \<and> \<not> sets_true ?sd (when_then w)"
  proof (intro ballI impI)
    fix w assume w: "w \<in> set (merge_whens stmtU)" and mr: "when_matched w \<and> when_rt w = RtNotDelete"
    from w mr obtain u where "w \<in> set (update_statements_for m1 ?allCols u)"
      unfolding whensU by (auto split: if_splits)
    then have wt: "when_then w = UpdateSet (update_assignments m1 ?allCols u)"
      using mr by (auto simp: update_statements_for_set split: if_splits)
    show "(\<exists>asg. when_then w = UpdateSet (asg @ [(?sd, LitFALSE)])) \<and> \<not> sets_true ?sd (when_then w)"
      using update_assignments_soft [OF hsU, of ?allCols u] no_true_in_update [of ?sd m1 ?allCols u]
      by (simp add: wt pcU)
  qed
  have b: "\<forall>w \<in> set (merge_whens stmtU). sets_true ?sd (when_then w) \<longrightarrow> when_rt w = RtIsDelete"
  proof (intro ballI impI)
    fix w assume w: "w \<in> set (merge_whens stmtU)" and st: "sets_true ?sd (when_then w)"
    show "when_rt w = RtIsDelete"
    proof (rule ccontr)
      assume "when_rt w \<noteq> RtIsDelete"
      then have r: "when_rt w = RtNotDelete" by (cases "when_rt w") auto
      show False
      proof (cases "when_matched w")
        case True
        with a w r st show False by blast
      next
        case False
        with w r have "when_then w = InsertValues (?allCols @ [?sy])
            (map SrcCol (map (\<lambda>(i, col). ''_c'' @ string_of_nat i)
               (enumerate 0 (Columns (normalizedTableSchema m)))) @ [CURRENT_TIMESTAMP])"
          unfolding whensU by (auto simp: update_statements_for_set split: if_splits)
        with st have "(?sd, LitTRUE) \<in> set (zip (?allCols @ [?sy])
            (map SrcCol (map (\<lambda>(i, col). ''_c'' @ string_of_nat i)
               (enumerate 0 (Columns (normalizedTableSchema m)))) @ [CURRENT_TIMESTAMP]))"
          by (simp only: sets_true.simps)
        then show False
          using no_true_in_insert [of ?sd "?allCols @ [?sy]"
            "map (\<lambda>(i, col). ''_c'' @ string_of_nat i) (enumerate 0 (Columns (normalizedTableSchema m)))"]
          by contradiction
      qed
    qed
  qed
  have c: "src_rt del = 2 \<and> src_rt ups \<noteq> 2 \<and> src_ut ups \<in> set toastU \<longrightarrow>
               (\<exists>r1 r2. merge_row (merge_whens stmtD) now1 del existing = Some r1
                  \<and> (?sy \<noteq> ?sd \<longrightarrow> r1 ?sd = Some (VBool True))
                  \<and> merge_row (merge_whens stmtU) now2 ups (Some r1) = Some r2
                  \<and> r2 ?sd = Some (VBool False)
                  \<and> (\<forall>c \<in> set (ArrayMinus ?allCols (strings_Split (src_ut ups) (CHR '',''))).
                        c \<noteq> ?sd \<and> c \<noteq> ?sy \<longrightarrow>
                        r2 c = Some (src_cols ups (shortColumn m1 c))))"
  proof (intro impI)
    assume h: "src_rt del = 2 \<and> src_rt ups \<noteq> 2 \<and> src_ut ups \<in> set toastU"
    let ?Q = "\<lambda>r. \<exists>r1. r = Some r1 \<and> (?sy \<noteq> ?sd \<longrightarrow> r1 ?sd = Some (VBool True))"
    have exD: "\<exists>w \<in> set (merge_whens stmtD). when_applies w del existing"
    proof (cases existing)
      case None
      let ?w = "\<lparr> when_matched = False, when_rt = RtIsDelete, when_ut = None,
               when_then = InsertValues (?allCols @ [?sy] @ [?sd])
                 (map SrcCol (map (\<lambda>(i, col). ''_c'' @ string_of_nat i)
                    (enumerate 0 (Columns (normalizedTableSchema m)))) @ [CURRENT_TIMESTAMP] @ [LitTRUE]) \<rparr>"
      have "?w \<in> set (merge_whens stmtD)" unfolding whensD using soft by simp
      moreover have "when_applies ?w del existing" using h None by (simp add: when_applies_def)
      ultimately show ?thesis by blast
    next
      case (Some row)
      let ?w = "\<lparr> when_matched = True, when_rt = RtIsDelete, when_ut = None,
           when_then = (if SoftDelete (peerdbCols m)
              then UpdateSet ((?sd, LitTRUE) # (if ?sy \<noteq> [] then [(?sy, CURRENT_TIMESTAMP)] else []))
              else DeleteRow) \<rparr>"
      have "?w \<in> set (merge_whens stmtD)" unfolding whensD by simp
      moreover have "when_applies ?w del existing" using h Some by (simp add: when_applies_def)
      ultimately show ?thesis by blast
    qed
    have allD: "\<forall>w \<in> set (merge_whens stmtD). when_applies w del existing \<longrightarrow>
        ?Q (run_action now1 del (when_then w) existing)"
    proof (intro ballI impI)
      fix w assume w: "w \<in> set (merge_whens stmtD)" and ap: "when_applies w del existing"
      from ap h have r: "when_rt w = RtIsDelete"
        by (auto simp: when_applies_def split: rt_test.splits)
      from ap have mt: "when_matched w = (existing \<noteq> None)" by (simp add: when_applies_def)
      consider (ins) "when_then w = InsertValues (?allCols @ [?sy] @ [?sd])
                 (map SrcCol (map (\<lambda>(i, col). ''_c'' @ string_of_nat i)
                    (enumerate 0 (Columns (normalizedTableSchema m)))) @ [CURRENT_TIMESTAMP] @ [LitTRUE])"
        | (upd) u where "existing \<noteq> None" "when_then w = UpdateSet (butlast (update_assignments mD ?allCols u) @ [(?sd, LitTRUE)])"
        | (fin) "existing \<noteq> None" "when_then w = UpdateSet ((?sd, LitTRUE) # (if ?sy \<noteq> [] then [(?sy, CURRENT_TIMESTAMP)] else []))"
        using w r mt soft unfolding whensD
        by (auto simp: update_statements_for_set pcD split: if_splits)
      then show "?Q (run_action now1 del (when_then w) existing)"
      proof cases
        case ins
        let ?Z = "zip (?allCols @ [?sy]) (map SrcCol (map (\<lambda>(i, col). ''_c'' @ string_of_nat i)
                    (enumerate 0 (Columns (normalizedTableSchema m)))) @ [CURRENT_TIMESTAMP])"
        have z: "zip (?allCols @ [?sy] @ [?sd])
                 (map SrcCol (map (\<lambda>(i, col). ''_c'' @ string_of_nat i)
                    (enumerate 0 (Columns (normalizedTableSchema m)))) @ [CURRENT_TIMESTAMP] @ [LitTRUE])
             = ?Z @ [(?sd, LitTRUE)]"
          using zip_snoc_last [of "?allCols @ [?sy]" "map SrcCol (map (\<lambda>(i, col). ''_c'' @ string_of_nat i)
                    (enumerate 0 (Columns (normalizedTableSchema m)))) @ [CURRENT_TIMESTAMP]" ?sd LitTRUE]
          by simp
        have "run_action now1 del (when_then w) existing
            = Some (set_columns now1 del (?Z @ [(?sd, LitTRUE)]) Map.empty)"
          unfolding ins run_action.simps z ..
        moreover have "set_columns now1 del (?Z @ [(?sd, LitTRUE)]) Map.empty ?sd = Some (VBool True)"
          using set_columns_last [of now1 del ?Z ?sd LitTRUE Map.empty] by simp
        ultimately show ?thesis by blast
      next
        case upd
        then obtain row where "existing = Some row" by auto
        then show ?thesis using upd by (simp add: set_columns_snoc)
      next
        case fin
        then obtain row where "existing = Some row" by auto
        then show ?thesis using fin by (auto simp: set_columns_def)
      qed
    qed
    from merge_row_cases [of "merge_whens stmtD" del existing ?Q now1, OF exD allD]
    obtain r1 where r1: "merge_row (merge_whens stmtD) now1 del existing = Some r1"
        "?sy \<noteq> ?sd \<longrightarrow> r1 ?sd = Some (VBool True)"
      by blast
    let ?asg = "update_assignments m1 ?allCols (src_ut ups)"
    let ?r2 = "set_columns now2 ups ?asg r1"
    have r2: "merge_row (merge_whens stmtU) now2 ups (Some r1) = Some ?r2"
      using upsert_applies [OF genU, of ups now2 r1] h by simp
    obtain pre where pre: "?asg = pre @ [(?sd, LitFALSE)]"
      using update_assignments_soft [OF hsU, of ?allCols "src_ut ups"] by (auto simp: pcU)
    have f: "?r2 ?sd = Some (VBool False)"
      by (simp add: pre set_columns_snoc)
    have vals: "\<forall>c \<in> set (ArrayMinus ?allCols (strings_Split (src_ut ups) (CHR '',''))).
                        c \<noteq> ?sd \<and> c \<noteq> ?sy \<longrightarrow> ?r2 c = Some (src_cols ups (shortColumn m1 c))"
    proof (intro ballI impI)
      fix c assume c: "c \<in> set (ArrayMinus ?allCols (strings_Split (src_ut ups) (CHR '','')))"
        and ne: "c \<noteq> ?sd \<and> c \<noteq> ?sy"
      have "c \<in> set (map fst ?asg)"
        using c by (simp add: update_assignments_targets)
      then have i: "c \<in> fst ` set ?asg" by simp
      have "\<forall>e. (c, e) \<in> set ?asg \<longrightarrow> eval_expr now2 ups e = src_cols ups (shortColumn m1 c)"
        using ne by (auto dest!: update_assignments_rhs simp: pcU)
      with i show "?r2 c = Some (src_cols ups (shortColumn m1 c))"
        by (rule set_columns_same)
    qed
    show "\<exists>r1 r2. merge_row (merge_whens stmtD) now1 del existing = Some r1
                  \<and> (?sy \<noteq> ?sd \<longrightarrow> r1 ?sd = Some (VBool True))
                  \<and> merge_row (merge_whens stmtU) now2 ups (Some r1) = Some r2
                  \<and> r2 ?sd = Some (VBool False)
                  \<and> (\<forall>c \<in> set (ArrayMinus ?allCols (strings_Split (src_ut ups) (CHR '',''))).
                        c \<noteq> ?sd \<and> c \<noteq> ?sy \<longrightarrow>
                        r2 c = Some (src_cols ups (shortColumn m1 c)))"
      using r1 r2 f vals by blast
  qed
  have dd: "del \<in> set rows \<and> ups \<in> set rows
               \<and> map (src_cols del) (dd_partition_by (merge_dd stmtU)) = map (src_cols ups) (dd_partition_by (merge_dd stmtU))
               \<and> src_timestamp del < src_timestamp ups \<longrightarrow>
               del \<notin> set (deduped_rows (merge_dd stmtU) rows)"
    unfolding deduped_rows_def by auto
  show ?thesis
    using a b c dd by (simp add: genD genU Let_def)
qed

theorem soft_delete_round_trip_witness:
  "handleSoftDelete gen0 \<and> src_rt delete_record = 2 \<and> src_rt update_b_unchanged \<noteq> 2
   \<and> src_ut update_b_unchanged \<in> set [''b'', []]
   \<and> the (merge_row (merge_whens (fst (generateMergeStmt bq_type0 gen0 [[]]))) 5 delete_record (Some dest_row0))
         ''_peerdb_is_deleted'' = Some (VBool True)
   \<and> map (the (merge_row (merge_whens (fst (generateMergeStmt bq_type0 gen0 [''b'', []]))) 7 update_b_unchanged
          (merge_row (merge_whens (fst (generateMergeStmt bq_type0 gen0 [[]]))) 5 delete_record (Some dest_row0))))
         [''id'', ''a'', ''b'', ''_peerdb_is_deleted'']
       = [Some (VData ''1''), Some (VData ''new-a''), Some (VData ''old-b''), Some (VBool False)]
   \<and> map src_timestamp
         (deduped_rows (merge_dd (fst (generateMergeStmt bq_type0 gen0 [''b'', []]))) [delete_record, update_b_unchanged])
       = [src_timestamp update_b_unchanged]"
proof -
  have h: "handleSoftDelete gen0" by (simp add: handleSoftDelete_def gen0_def)
  have h1: "src_rt delete_record = 2" by (simp add: delete_record_def)
  have h2: "src_rt update_b_unchanged \<noteq> 2" by (simp add: update_b_unchanged_def)
  have h3: "src_ut update_b_unchanged \<in> set [''b'', []]" by (simp add: update_b_unchanged_def)
  have ev1: "the (merge_row (merge_whens (fst (generateMergeStmt bq_type0 gen0 [[]]))) 5 delete_record (Some dest_row0))
         ''_peerdb_is_deleted'' = Some (VBool True)"
    by code_simp
  have ev2: "map (the (merge_row (merge_whens (fst (generateMergeStmt bq_type0 gen0 [''b'', []]))) 7 update_b_unchanged
          (merge_row (merge_whens (fst (generateMergeStmt bq_type0 gen0 [[]]))) 5 delete_record (Some dest_row0))))
         [''id'', ''a'', ''b'', ''_peerdb_is_deleted'']
       = [Some (VData ''1''), Some (VData ''new-a''), Some (VData ''old-b''), Some (VBool False)]"
    by code_simp
  have ev3: "map src_timestamp
         (deduped_rows (merge_dd (fst (generateMergeStmt bq_type0 gen0 [''b'', []]))) [delete_record, update_b_unchanged])
       = [src_timestamp update_b_unchanged]"
    by code_simp
  note round_trip = soft_delete_round_trip [OF h, of bq_type0 "[[]]" "[''b'', []]" delete_record
            update_b_unchanged 5 "Some dest_row0" 7 "[delete_record, update_b_unchanged]"]
  show ?thesis
    using round_trip by - (intro conjI h h1 h2 h3 ev1 ev2 ev3)
qed

section \<open>ClickHouse normalization: the batch counter\<close>

lemma sless_succ:
  fixes n s :: int64
  assumes "\<not> s \<le>s n"
  shows "n \<le>s n + 1 \<and> n + 1 \<le>s s"
proof -
  have lt: "sint n < sint s" using assms by (simp add: word_sle_eq)
  have "sint s < 2 ^ 63" using sint_lt [of s] by simp
  moreover have "- (2 ^ 63) \<le> sint n" using sint_ge [of n] by simp
  ultimately have "sint (n + 1) = sint n + 1"
    using lt by (simp add: sint_word_ariths signed_take_bit_int_eq_self)
  then show ?thesis using lt by (simp add: word_sle_eq)
qed

lemma sle_trans: "(a::int64) \<le>s b \<Longrightarrow> b \<le>s c \<Longrightarrow> a \<le>s c"
  by (simp add: word_sle_eq)

lemma written_in_range_refl: "written_in_range lo hi c c"
  by (simp add: written_in_range_def)

lemma written_in_range_trans:
  assumes "written_in_range lo hi c c1" "written_in_range lo hi c1 c2"
  shows "written_in_range lo hi c c2"
  unfolding written_in_range_def
proof
  fix tbl
  from assms(1) obtain w1 where w1: "normalized_tables c1 tbl = normalized_tables c tbl @ w1"
      "\<forall>(p, r) \<in> set w1. in_batch_range lo hi r"
    unfolding written_in_range_def by blast
  from assms(2) obtain w2 where w2: "normalized_tables c2 tbl = normalized_tables c1 tbl @ w2"
      "\<forall>(p, r) \<in> set w2. in_batch_range lo hi r"
    unfolding written_in_range_def by blast
  have "normalized_tables c2 tbl = normalized_tables c tbl @ (w1 @ w2)"
    using w1(1) w2(1) by simp
  moreover have "\<forall>(p, r) \<in> set (w1 @ w2). in_batch_range lo hi r"
    using w1(2) w2(2) by auto
  ultimately show "\<exists>written. normalized_tables c2 tbl = normalized_tables c tbl @ written
        \<and> (\<forall>(p, r) \<in> set written. in_batch_range lo hi r)"
    by blast
qed

lemma selected_rows_in_range:
  "r \<in> set (selected_rows q rows) \<Longrightarrow> in_batch_range (batch_id_gt q) (batch_id_le q) r"
  by (simp add: selected_rows_def)

lemma ExecContext_effect:
  assumes "ExecContext env c q = Inr c1"
  shows "normalize_batch_id c1 = normalize_batch_id c \<and> raw_tables c1 = raw_tables c
         \<and> written_in_range (batch_id_gt q) (batch_id_le q) c c1"
proof -
  let ?ins = "map (\<lambda>r. (select_proj q, r)) (selected_rows q (raw_tables c (from_table q)))"
  have c1: "c1 = c\<lparr>normalized_tables :=
      (normalized_tables c)(into_table q := normalized_tables c (into_table q) @ ?ins)\<rparr>"
    using assms by (simp add: ExecContext_def Let_def split: if_splits)
  have ins: "\<forall>(p, r) \<in> set ?ins. in_batch_range (batch_id_gt q) (batch_id_le q) r"
    using selected_rows_in_range by auto
  have "written_in_range (batch_id_gt q) (batch_id_le q) c c1"
    unfolding written_in_range_def
  proof
    fix tbl
    show "\<exists>written. normalized_tables c1 tbl = normalized_tables c tbl @ written
        \<and> (\<forall>(p, r) \<in> set written. in_batch_range (batch_id_gt q) (batch_id_le q) r)"
    proof (cases "tbl = into_table q")
      case True
      then have "normalized_tables c1 tbl = normalized_tables c tbl @ ?ins"
        using c1 by simp
      then show ?thesis using ins by blast
    next
      case False
      then have "normalized_tables c1 tbl = normalized_tables c tbl @ []"
        using c1 by simp
      then show ?thesis by (metis empty_iff list.set(1))
    qed
  qed
  then show ?thesis using c1 by simp
qed

lemma normalize_tables_effect:
  "normalize_tables env req rawTbl n tbls c = (res, c1) \<Longrightarrow>
     normalize_batch_id c1 = normalize_batch_id c \<and> raw_tables c1 = raw_tables c
     \<and> written_in_range n (SyncBatchID req) c c1"
proof (induction tbls arbitrary: c)
  case Nil
  then show ?case by (simp add: written_in_range_refl)
next
  case (Cons tbl rest)
  show ?case
  proof (cases "TableNameSchemaMapping req tbl")
    case None
    then show ?thesis using Cons.prems by (simp add: written_in_range_refl)
  next
    case (Some schema)
    show ?thesis
    proof (cases "column_projections env (Columns schema)")
      case (Inl e)
      then show ?thesis using Cons.prems Some by (simp add: written_in_range_refl)
    next
      case (Inr sp)
      obtain colSelector projection where sp: "sp = (colSelector, projection)"
        by (cases sp)
      let ?q = "\<lparr> into_table = tbl,
                   col_selector = colSelector @ [''_peerdb_is_deleted'', ''_peerdb_version''],
                   select_proj = projection @ [ProjSign, ProjVersion],
                   from_table = rawTbl, batch_id_gt = n, batch_id_le = SyncBatchID req,
                   destination_eq = tbl \<rparr>"
      show ?thesis
      proof (cases "ExecContext env c ?q")
        case (Inl e)
        then show ?thesis using Cons.prems Some Inr sp by (simp add: written_in_range_refl)
      next
        case (Inr c2)
        have step: "normalize_batch_id c2 = normalize_batch_id c \<and> raw_tables c2 = raw_tables c
            \<and> written_in_range n (SyncBatchID req) c c2"
          using ExecContext_effect [OF Inr] by simp
        have "normalize_tables env req rawTbl n rest c2 = (res, c1)"
          using Cons.prems Some \<open>column_projections env (Columns schema) = Inr sp\<close> sp Inr by simp
        from Cons.IH [OF this] step show ?thesis
          by (auto intro: written_in_range_trans)
      qed
    qed
  qed
qed

text \<open>
  C10. When reading the stored id succeeds and the stored normalize batch id is at least
  the requested sync batch id, \<open>NormalizeRecords\<close> returns the response with
  \<open>Done = false\<close> (and the two ids), and the connector is unchanged: no normalized table
  is written, and the stored normalize batch id stays as it was.
\<close>

theorem NormalizeRecords_caught_up:
  assumes "\<not> fails env CallGetLastNormalizeBatchID"
      and "SyncBatchID req \<le>s normalize_batch_id c (req_FlowJobName req)"
  shows "NormalizeRecords env c req =
           (Inr \<lparr> Done = False, StartBatchID = normalize_batch_id c (req_FlowJobName req),
                  EndBatchID = SyncBatchID req \<rparr>, c)"
  using assms by (simp add: NormalizeRecords_def GetLastNormalizeBatchID_def)

lemma NormalizeRecords_effect:
  assumes "NormalizeRecords env c req = (res, c1)"
  shows "raw_tables c1 = raw_tables c
     \<and> written_in_range (normalize_batch_id c (req_FlowJobName req)) (SyncBatchID req) c c1
     \<and> (normalize_batch_id c1 = normalize_batch_id c
        \<or> (\<not> SyncBatchID req \<le>s normalize_batch_id c (req_FlowJobName req)
            \<and> (\<exists>r. res = Inr r \<and> Done r)
            \<and> normalize_batch_id c1 = (normalize_batch_id c)
                 (req_FlowJobName req := normalize_batch_id c (req_FlowJobName req) + 1)))"
proof -
  let ?f = "req_FlowJobName req"
  let ?n = "normalize_batch_id c ?f"
  show ?thesis
  proof (cases "GetLastNormalizeBatchID env c ?f")
    case (Inl e)
    then have "c1 = c"
      using assms by (simp add: NormalizeRecords_def)
    then show ?thesis by (simp add: written_in_range_refl)
  next
    case (Inr n)
    then have get: "GetLastNormalizeBatchID env c ?f = Inr ?n"
      by (simp add: GetLastNormalizeBatchID_def split: if_splits)
    show ?thesis
    proof (cases "SyncBatchID req \<le>s ?n")
    case True
    then have "c1 = c"
      using assms get by (simp add: NormalizeRecords_def)
    then show ?thesis by (simp add: written_in_range_refl)
    next
    case lt: False
    show ?thesis
    proof (cases "getDistinctTableNamesInBatch env c ?f (SyncBatchID req) ?n")
      case (Inl e)
      then have "c1 = c" using assms get lt by (simp add: NormalizeRecords_def)
      then show ?thesis by (simp add: written_in_range_refl)
    next
      case (Inr names)
      obtain r2 c2 where nt: "normalize_tables env req (getRawTableName env ?f) ?n names c = (r2, c2)"
        by (cases "normalize_tables env req (getRawTableName env ?f) ?n names c")
      have eff: "normalize_batch_id c2 = normalize_batch_id c \<and> raw_tables c2 = raw_tables c
          \<and> written_in_range ?n (SyncBatchID req) c c2"
        using normalize_tables_effect [OF nt] .
      show ?thesis
      proof (cases r2)
        case (Some e)
        then have "c1 = c2" using assms get lt Inr nt by (simp add: NormalizeRecords_def)
        then show ?thesis using eff by simp
      next
        case None
        show ?thesis
        proof (cases "fails env CallUpdateNormalizeBatchID")
          case True
          then have "c1 = c2"
            using assms get lt Inr nt None
            by (simp add: NormalizeRecords_def UpdateNormalizeBatchID_def Let_def)
          then show ?thesis using eff by simp
        next
          case False
          then have "c1 = c2\<lparr>normalize_batch_id := (normalize_batch_id c2)(?f := ?n + 1)\<rparr>
              \<and> res = Inr \<lparr> Done = True, StartBatchID = ?n + 1, EndBatchID = SyncBatchID req \<rparr>"
            using assms get lt Inr nt None
            by (auto simp: NormalizeRecords_def UpdateNormalizeBatchID_def Let_def)
          then show ?thesis using eff lt by (auto simp: written_in_range_def)
        qed
      qed
    qed
    qed
  qed
qed

lemma NormalizeRecords_success:
  assumes "NormalizeRecords env c req = (Inr r, c1)" and "Done r"
  shows "normalize_batch_id c1 (req_FlowJobName req) = normalize_batch_id c (req_FlowJobName req) + 1
         \<and> StartBatchID r = normalize_batch_id c (req_FlowJobName req) + 1
         \<and> EndBatchID r = SyncBatchID req"
  using assms
  by (auto simp: NormalizeRecords_def GetLastNormalizeBatchID_def UpdateNormalizeBatchID_def Let_def
      split: sum.splits if_splits option.splits prod.splits)

lemma NormalizeRecords_id_step:
  assumes "NormalizeRecords env c req = (res, c1)"
  shows "normalize_batch_id c f \<le>s normalize_batch_id c1 f
         \<and> (normalize_batch_id c f \<le>s b \<longrightarrow> (req_FlowJobName req = f \<longrightarrow> SyncBatchID req \<le>s b)
              \<longrightarrow> normalize_batch_id c1 f \<le>s b)"
proof -
  let ?g = "req_FlowJobName req"
  from NormalizeRecords_effect [OF assms]
  consider (same) "normalize_batch_id c1 = normalize_batch_id c"
    | (adv) "\<not> SyncBatchID req \<le>s normalize_batch_id c ?g"
        "normalize_batch_id c1 = (normalize_batch_id c)(?g := normalize_batch_id c ?g + 1)"
    by blast
  then show ?thesis
  proof cases
    case same
    then show ?thesis by (simp add: word_sle_eq)
  next
    case adv
    note s = sless_succ [OF adv(1)]
    show ?thesis
    proof (cases "f = ?g")
      case True
      then show ?thesis using adv(2) s by (auto intro: sle_trans)
    next
      case False
      then show ?thesis using adv(2) by (simp add: word_sle_eq)
    qed
  qed
qed

lemma ch_run_append: "ch_run c (xs @ ys) = ch_run (ch_run c xs) ys"
proof (induction xs arbitrary: c)
  case Nil
  then show ?case by simp
next
  case (Cons x xs)
  then show ?case by (cases x) simp_all
qed

lemma ch_run_monotone: "normalize_batch_id c f \<le>s normalize_batch_id (ch_run c steps) f"
proof (induction steps arbitrary: c)
  case Nil
  then show ?case by (simp add: word_sle_eq)
next
  case (Cons x steps)
  show ?case
  proof (cases x)
    case (Normalize env req)
    obtain res c1 where r: "NormalizeRecords env c req = (res, c1)"
      by (cases "NormalizeRecords env c req")
    have "normalize_batch_id c f \<le>s normalize_batch_id c1 f"
      using NormalizeRecords_id_step [OF r] by blast
    moreover have "normalize_batch_id c1 f \<le>s normalize_batch_id (ch_run c1 steps) f"
      by (rule Cons.IH)
    ultimately show ?thesis using Normalize r by (auto intro: sle_trans)
  next
    case (AppendRaw tbl rows)
    then show ?thesis using Cons.IH [of "c\<lparr>raw_tables := (raw_tables c)(tbl := raw_tables c tbl @ rows)\<rparr>"]
      by simp
  qed
qed

lemma ch_run_bounded:
  assumes "normalize_batch_id c f \<le>s b"
      and "\<forall>env req. Normalize env req \<in> set steps \<and> req_FlowJobName req = f \<longrightarrow> SyncBatchID req \<le>s b"
  shows "normalize_batch_id (ch_run c steps) f \<le>s b"
  using assms
proof (induction steps arbitrary: c)
  case Nil
  then show ?case by simp
next
  case (Cons x steps)
  have rest: "\<forall>env req. Normalize env req \<in> set steps \<and> req_FlowJobName req = f \<longrightarrow> SyncBatchID req \<le>s b"
    using Cons.prems(2) by auto
  show ?case
  proof (cases x)
    case (Normalize env req)
    obtain res c1 where r: "NormalizeRecords env c req = (res, c1)"
      by (cases "NormalizeRecords env c req")
    have "req_FlowJobName req = f \<longrightarrow> SyncBatchID req \<le>s b"
      using Cons.prems(2) Normalize by auto
    then have "normalize_batch_id c1 f \<le>s b"
      using NormalizeRecords_id_step [OF r, of f b] Cons.prems(1) by blast
    then have "normalize_batch_id (ch_run c1 steps) f \<le>s b"
      using rest by (rule Cons.IH)
    then show ?thesis using Normalize r by simp
  next
    case (AppendRaw tbl rows)
    have "normalize_batch_id (c\<lparr>raw_tables := (raw_tables c)(tbl := raw_tables c tbl @ rows)\<rparr>) f \<le>s b"
      using Cons.prems(1) by simp
    then have "normalize_batch_id (ch_run (c\<lparr>raw_tables := (raw_tables c)(tbl := raw_tables c tbl @ rows)\<rparr>) steps) f \<le>s b"
      using rest by (rule Cons.IH)
    then show ?thesis using AppendRaw by simp
  qed
qed

lemma generateMergeStmt_cte:
  "merge_f (fst (generateMergeStmt bq_type m utc)) = generateFlattenedCTE bq_type (snd (generateMergeStmt bq_type m utc))
   \<and> normalizeBatchID (snd (generateMergeStmt bq_type m utc)) = normalizeBatchID m
   \<and> syncBatchID (snd (generateMergeStmt bq_type m utc)) = syncBatchID m"
  by (simp add: generateMergeStmt_def Let_def)

text \<open>
  C2. Along every history of the connector (invocations of \<open>NormalizeRecords\<close>, failing
  or not, with raw rows arriving in between) the stored normalize batch id of a flow never
  decreases; it never exceeds a bound \<open>b\<close> that it starts below and that no requested sync
  batch id of the flow exceeds (the current \<open>last_sync_batch_id\<close>, which only grows, is
  such a bound); every row an invocation writes to a normalized table comes from a raw
  row whose batch id lies in the half-open range from the stored normalize batch id to the
  requested sync batch id; and the flattened CTE of the BigQuery merge statement keeps only
  raw rows in the range from the generator's normalize batch id to its sync batch id.
\<close>

theorem batch_counter_invariant:
  "normalize_batch_id (ch_run c earlier) f \<le>s normalize_batch_id (ch_run c (earlier @ later)) f
   \<and> (normalize_batch_id c f \<le>s b
        \<and> (\<forall>env req. Normalize env req \<in> set steps \<and> req_FlowJobName req = f \<longrightarrow> SyncBatchID req \<le>s b)
       \<longrightarrow> normalize_batch_id (ch_run c steps) f \<le>s b)
   \<and> (\<forall>tbl. \<exists>written.
         normalized_tables (snd (NormalizeRecords env c req)) tbl = normalized_tables c tbl @ written
         \<and> (\<forall>(p, r) \<in> set written.
               normalize_batch_id c (req_FlowJobName req) <s peerdb_batch_id r
               \<and> peerdb_batch_id r \<le>s SyncBatchID req))
   \<and> (\<forall>r \<in> set (flattened_rows (merge_f (fst (generateMergeStmt bq_type m toast))) raw).
         normalizeBatchID m <s peerdb_batch_id r \<and> peerdb_batch_id r \<le>s syncBatchID m)"
proof -
  have mono: "normalize_batch_id (ch_run c earlier) f \<le>s normalize_batch_id (ch_run c (earlier @ later)) f"
    unfolding ch_run_append by (rule ch_run_monotone)
  have bound: "normalize_batch_id c f \<le>s b
        \<and> (\<forall>env req. Normalize env req \<in> set steps \<and> req_FlowJobName req = f \<longrightarrow> SyncBatchID req \<le>s b)
       \<longrightarrow> normalize_batch_id (ch_run c steps) f \<le>s b"
    using ch_run_bounded [of c f b steps] by blast
  obtain res c1 where r: "NormalizeRecords env c req = (res, c1)"
    by (cases "NormalizeRecords env c req")
  have "written_in_range (normalize_batch_id c (req_FlowJobName req)) (SyncBatchID req) c c1"
    using NormalizeRecords_effect [OF r] by blast
  then have range: "\<forall>tbl. \<exists>written.
         normalized_tables (snd (NormalizeRecords env c req)) tbl = normalized_tables c tbl @ written
         \<and> (\<forall>(p, r) \<in> set written.
               normalize_batch_id c (req_FlowJobName req) <s peerdb_batch_id r
               \<and> peerdb_batch_id r \<le>s SyncBatchID req)"
    unfolding written_in_range_def in_batch_range_def r by simp
  have cte: "\<forall>r \<in> set (flattened_rows (merge_f (fst (generateMergeStmt bq_type m toast))) raw).
         normalizeBatchID m <s peerdb_batch_id r \<and> peerdb_batch_id r \<le>s syncBatchID m"
    using generateMergeStmt_cte [of bq_type m toast]
    by (simp add: flattened_rows_def generateFlattenedCTE_def in_batch_range_def)
  show ?thesis
    using mono bound range cte by blast
qed

theorem batch_counter_invariant_witness:
  "normalize_batch_id conn0 ''mirror'' \<le>s 2
   \<and> normalize_batch_id (ch_run conn0 [Normalize env0 (req_sync 1), Normalize env0 (req_sync 2),
        Normalize env0 (req_sync 2)]) ''mirror'' = 2
   \<and> normalize_batch_id (ch_run conn0 [Normalize env0 (req_sync 1), Normalize env0 (req_sync 2),
        Normalize env0 (req_sync 2)]) ''mirror'' \<le>s 2
   \<and> map (\<lambda>(p, r). peerdb_batch_id r) (normalized_tables (snd (NormalizeRecords env0 conn0 (req_sync 1))) ''t'') = [1]"
proof -
  let ?steps = "[Normalize env0 (req_sync 1), Normalize env0 (req_sync 2), Normalize env0 (req_sync 2)]"
  have h1: "normalize_batch_id conn0 ''mirror'' \<le>s 2" by code_simp
  have h2: "\<forall>env req. Normalize env req \<in> set ?steps \<and> req_FlowJobName req = ''mirror'' \<longrightarrow> SyncBatchID req \<le>s 2"
    by (auto simp: req_sync_def word_sle_eq)
  have ev1: "normalize_batch_id (ch_run conn0 ?steps) ''mirror'' = 2" by code_simp
  have ev2: "map (\<lambda>(p, r). peerdb_batch_id r) (normalized_tables (snd (NormalizeRecords env0 conn0 (req_sync 1))) ''t'') = [1]"
    by code_simp
  have "normalize_batch_id (ch_run conn0 ?steps) ''mirror'' \<le>s 2"
    using batch_counter_invariant [of conn0 "[]" "''mirror''" "[]" 2 ?steps] h1 h2 by blast
  then show ?thesis using h1 ev1 ev2 by simp
qed

theorem NormalizeRecords_caught_up_witness:
  "\<not> fails env0 CallGetLastNormalizeBatchID
   \<and> SyncBatchID (req_sync 0) \<le>s normalize_batch_id conn0 (req_FlowJobName (req_sync 0))
   \<and> NormalizeRecords env0 conn0 (req_sync 0) =
       (Inr \<lparr> Done = False, StartBatchID = 0, EndBatchID = 0 \<rparr>, conn0)"
proof -
  have h1: "\<not> fails env0 CallGetLastNormalizeBatchID" by (simp add: env0_def)
  have h2: "SyncBatchID (req_sync 0) \<le>s normalize_batch_id conn0 (req_FlowJobName (req_sync 0))"
    by (simp add: req_sync_def conn0_def)
  show ?thesis
    using NormalizeRecords_caught_up [OF h1 h2] h1 h2 by (simp add: req_sync_def conn0_def)
qed

text \<open>
  C1 (the code against the claim). With nothing normalized yet and a sync batch id of 2,
  the raw rows of batches 1 and 2 are both written to the table and the response reports
  the range from 1 to 2, but the id stored is 1, not 2. A second invocation with the same
  request finds batch 2 pending and writes its row again.
\<close>

theorem NormalizeRecords_advances_by_one:
  "fst (NormalizeRecords env0 conn0 (req_sync 2)) = Inr \<lparr> Done = True, StartBatchID = 1, EndBatchID = 2 \<rparr>
   \<and> map (\<lambda>(p, r). peerdb_batch_id r) (normalized_tables (snd (NormalizeRecords env0 conn0 (req_sync 2))) ''t'') = [1, 2]
   \<and> normalize_batch_id (snd (NormalizeRecords env0 conn0 (req_sync 2))) ''mirror'' = 1
   \<and> map (\<lambda>(p, r). peerdb_batch_id r)
        (normalized_tables (ch_run conn0 [Normalize env0 (req_sync 2), Normalize env0 (req_sync 2)]) ''t'') = [1, 2, 2]"
  by code_simp

section \<open>Value conversion: JSON arrays and UUIDs\<close>

lemma those_map_inj:
  assumes "\<And>x. as_T (mk x) = Some x"
  shows "those (map as_T (map mk xs)) = Some xs"
  using assms by (induction xs) auto

lemma those_map_miss:
  "e \<in> set v \<Longrightarrow> as_T e = None \<Longrightarrow> those (map as_T v) = None"
  by (induction v) (auto split: option.splits)

lemma toQValue_JSON_array:
  assumes "strings_HasPrefix txt ''[''" and "json_Unmarshal L txt = Some elems"
  shows "toQValue L QValueKindJSON (PInterface (Some (GoString txt))) =
           (case elems of
              [] \<Rightarrow> Inr \<lparr> Kind = QValueKindJSON, Value = GoString txt \<rparr>
            | first # rest \<Rightarrow> toQValueArray (json_array_kind first) (GoSlice elems))"
  using assms
  by (simp add: toQValue_def toQValue_switch_def toQValue_JSON_def split: list.splits)

lemma json_array_kind_cases:
  "json_array_kind v \<noteq> QValueKindString \<Longrightarrow>
     (\<exists>x. v = GoFloat32 x) \<or> (\<exists>x. v = GoFloat64 x) \<or> (\<exists>x. v = GoInt16 x)
     \<or> (\<exists>x. v = GoInt32 x) \<or> (\<exists>x. v = GoInt64 x) \<or> (\<exists>x. v = GoString x)"
  by (cases v) simp_all

lemma as_float32_other: "json_array_kind e \<noteq> QValueKindArrayFloat32 \<Longrightarrow> as_float32 e = None"
  by (cases e) simp_all

lemma as_float64_other: "json_array_kind e \<noteq> QValueKindArrayFloat64 \<Longrightarrow> as_float64 e = None"
  by (cases e) simp_all

lemma as_int16_other: "json_array_kind e \<noteq> QValueKindArrayInt16 \<Longrightarrow> as_int16 e = None"
  by (cases e) simp_all

lemma as_int32_other: "json_array_kind e \<noteq> QValueKindArrayInt32 \<Longrightarrow> as_int32 e = None"
  by (cases e) simp_all

lemma as_int64_other: "json_array_kind e \<noteq> QValueKindArrayInt64 \<Longrightarrow> as_int64 e = None"
  by (cases e) simp_all

lemma as_string_other: "json_array_kind e \<noteq> QValueKindArrayString \<Longrightarrow> as_string e = None"
  by (cases e) simp_all

text \<open>
  C7 (as amended). For a JSON-kind driver value whose text starts with \<open>[\<close> and parses to
  an array: when the array is empty the result keeps the JSON kind and carries the text
  unchanged; when it is not empty and all its elements have one of the types float32,
  float64, int16, int32, int64 or string, the result has the array kind of that type and
  carries every element, converted, in order; when the first element has one of these
  types and a later element has another, the element-wise type assertion panics. (A first
  element of any other type is left aside.)
\<close>

theorem json_array_reclassified:
  assumes "strings_HasPrefix txt ''[''" and "json_Unmarshal L txt = Some elems"
  shows "(elems = [] \<longrightarrow>
            toQValue L QValueKindJSON (PInterface (Some (GoString txt))) =
              Inr \<lparr> Kind = QValueKindJSON, Value = GoString txt \<rparr>)
       \<and> (\<forall>xs. xs \<noteq> [] \<and> elems = map GoFloat32 xs \<longrightarrow>
            toQValue L QValueKindJSON (PInterface (Some (GoString txt))) =
              Inr \<lparr> Kind = QValueKindArrayFloat32, Value = GoSliceFloat32 xs \<rparr>)
       \<and> (\<forall>xs. xs \<noteq> [] \<and> elems = map GoFloat64 xs \<longrightarrow>
            toQValue L QValueKindJSON (PInterface (Some (GoString txt))) =
              Inr \<lparr> Kind = QValueKindArrayFloat64, Value = GoSliceFloat64 xs \<rparr>)
       \<and> (\<forall>xs. xs \<noteq> [] \<and> elems = map GoInt16 xs \<longrightarrow>
            toQValue L QValueKindJSON (PInterface (Some (GoString txt))) =
              Inr \<lparr> Kind = QValueKindArrayInt16, Value = GoSliceInt16 xs \<rparr>)
       \<and> (\<forall>xs. xs \<noteq> [] \<and> elems = map GoInt32 xs \<longrightarrow>
            toQValue L QValueKindJSON (PInterface (Some (GoString txt))) =
              Inr \<lparr> Kind = QValueKindArrayInt32, Value = GoSliceInt32 xs \<rparr>)
       \<and> (\<forall>xs. xs \<noteq> [] \<and> elems = map GoInt64 xs \<longrightarrow>
            toQValue L QValueKindJSON (PInterface (Some (GoString txt))) =
              Inr \<lparr> Kind = QValueKindArrayInt64, Value = GoSliceInt64 xs \<rparr>)
       \<and> (\<forall>xs. xs \<noteq> [] \<and> elems = map GoString xs \<longrightarrow>
            toQValue L QValueKindJSON (PInterface (Some (GoString txt))) =
              Inr \<lparr> Kind = QValueKindArrayString, Value = GoSliceString xs \<rparr>)
       \<and> (\<forall>first rest e. elems = first # rest \<and> json_array_kind first \<noteq> QValueKindString
              \<and> e \<in> set rest \<and> json_array_kind e \<noteq> json_array_kind first \<longrightarrow>
            toQValue L QValueKindJSON (PInterface (Some (GoString txt))) =
              Inl (Panic ''interface conversion''))"
proof -
  note J = toQValue_JSON_array [OF assms]
  have empty: "elems = [] \<longrightarrow>
      toQValue L QValueKindJSON (PInterface (Some (GoString txt))) =
        Inr \<lparr> Kind = QValueKindJSON, Value = GoString txt \<rparr>"
    using J by simp
  have f32: "\<forall>xs. xs \<noteq> [] \<and> elems = map GoFloat32 xs \<longrightarrow>
      toQValue L QValueKindJSON (PInterface (Some (GoString txt))) =
        Inr \<lparr> Kind = QValueKindArrayFloat32, Value = GoSliceFloat32 xs \<rparr>"
  proof (intro allI impI)
    fix xs assume h: "xs \<noteq> [] \<and> elems = map GoFloat32 xs"
    then obtain y ys where xs: "xs = y # ys" by (cases xs) auto
    have "those (map as_float32 (map GoFloat32 xs)) = Some xs" using those_map_inj [of as_float32 GoFloat32 xs] by simp
    then show "toQValue L QValueKindJSON (PInterface (Some (GoString txt))) =
        Inr \<lparr> Kind = QValueKindArrayFloat32, Value = GoSliceFloat32 xs \<rparr>"
      using J h xs by (simp add: toQValueArray_def assert_slice_def)
  qed
  have f64: "\<forall>xs. xs \<noteq> [] \<and> elems = map GoFloat64 xs \<longrightarrow>
      toQValue L QValueKindJSON (PInterface (Some (GoString txt))) =
        Inr \<lparr> Kind = QValueKindArrayFloat64, Value = GoSliceFloat64 xs \<rparr>"
  proof (intro allI impI)
    fix xs assume h: "xs \<noteq> [] \<and> elems = map GoFloat64 xs"
    then obtain y ys where xs: "xs = y # ys" by (cases xs) auto
    have "those (map as_float64 (map GoFloat64 xs)) = Some xs" using those_map_inj [of as_float64 GoFloat64 xs] by simp
    then show "toQValue L QValueKindJSON (PInterface (Some (GoString txt))) =
        Inr \<lparr> Kind = QValueKindArrayFloat64, Value = GoSliceFloat64 xs \<rparr>"
      using J h xs by (simp add: toQValueArray_def assert_slice_def)
  qed
  have i16: "\<forall>xs. xs \<noteq> [] \<and> elems = map GoInt16 xs \<longrightarrow>
      toQValue L QValueKindJSON (PInterface (Some (GoString txt))) =
        Inr \<lparr> Kind = QValueKindArrayInt16, Value = GoSliceInt16 xs \<rparr>"
  proof (intro allI impI)
    fix xs assume h: "xs \<noteq> [] \<and> elems = map GoInt16 xs"
    then obtain y ys where xs: "xs = y # ys" by (cases xs) auto
    have "those (map as_int16 (map GoInt16 xs)) = Some xs" using those_map_inj [of as_int16 GoInt16 xs] by simp
    then show "toQValue L QValueKindJSON (PInterface (Some (GoString txt))) =
        Inr \<lparr> Kind = QValueKindArrayInt16, Value = GoSliceInt16 xs \<rparr>"
      using J h xs by (simp add: toQValueArray_def assert_slice_def)
  qed
  have i32: "\<forall>xs. xs \<noteq> [] \<and> elems = map GoInt32 xs \<longrightarrow>
      toQValue L QValueKindJSON (PInterface (Some (GoString txt))) =
        Inr \<lparr> Kind = QValueKindArrayInt32, Value = GoSliceInt32 xs \<rparr>"
  proof (intro allI impI)
    fix xs assume h: "xs \<noteq> [] \<and> elems = map GoInt32 xs"
    then obtain y ys where xs: "xs = y # ys" by (cases xs) auto
    have "those (map as_int32 (map GoInt32 xs)) = Some xs" using those_map_inj [of as_int32 GoInt32 xs] by simp
    then show "toQValue L QValueKindJSON (PInterface (Some (GoString txt))) =
        Inr \<lparr> Kind = QValueKindArrayInt32, Value = GoSliceInt32 xs \<rparr>"
      using J h xs by (simp add: toQValueArray_def assert_slice_def)
  qed
  have i64: "\<forall>xs. xs \<noteq> [] \<and> elems = map GoInt64 xs \<longrightarrow>
      toQValue L QValueKindJSON (PInterface (Some (GoString txt))) =
        Inr \<lparr> Kind = QValueKindArrayInt64, Value = GoSliceInt64 xs \<rparr>"
  proof (intro allI impI)
    fix xs assume h: "xs \<noteq> [] \<and> elems = map GoInt64 xs"
    then obtain y ys where xs: "xs = y # ys" by (cases xs) auto
    have "those (map as_int64 (map GoInt64 xs)) = Some xs" using those_map_inj [of as_int64 GoInt64 xs] by simp
    then show "toQValue L QValueKindJSON (PInterface (Some (GoString txt))) =
        Inr \<lparr> Kind = QValueKindArrayInt64, Value = GoSliceInt64 xs \<rparr>"
      using J h xs by (simp add: toQValueArray_def assert_slice_def)
  qed
  have str: "\<forall>xs. xs \<noteq> [] \<and> elems = map GoString xs \<longrightarrow>
      toQValue L QValueKindJSON (PInterface (Some (GoString txt))) =
        Inr \<lparr> Kind = QValueKindArrayString, Value = GoSliceString xs \<rparr>"
  proof (intro allI impI)
    fix xs assume h: "xs \<noteq> [] \<and> elems = map GoString xs"
    then obtain y ys where xs: "xs = y # ys" by (cases xs) auto
    have "those (map as_string (map GoString xs)) = Some xs" using those_map_inj [of as_string GoString xs] by simp
    then show "toQValue L QValueKindJSON (PInterface (Some (GoString txt))) =
        Inr \<lparr> Kind = QValueKindArrayString, Value = GoSliceString xs \<rparr>"
      using J h xs by (simp add: toQValueArray_def assert_slice_def)
  qed
  have mis: "\<forall>first rest e. elems = first # rest \<and> json_array_kind first \<noteq> QValueKindString
              \<and> e \<in> set rest \<and> json_array_kind e \<noteq> json_array_kind first \<longrightarrow>
            toQValue L QValueKindJSON (PInterface (Some (GoString txt))) =
              Inl (Panic ''interface conversion'')"
  proof (intro allI impI)
    fix first rest e
    assume h: "elems = first # rest \<and> json_array_kind first \<noteq> QValueKindString
              \<and> e \<in> set rest \<and> json_array_kind e \<noteq> json_array_kind first"
    then have e: "e \<in> set elems" by simp
    have T: "toQValue L QValueKindJSON (PInterface (Some (GoString txt))) =
        toQValueArray (json_array_kind first) (GoSlice elems)"
      using J h by simp
    from h have k: "json_array_kind first \<noteq> QValueKindString"
      and ne: "json_array_kind e \<noteq> json_array_kind first" by simp_all
    from json_array_kind_cases [OF k]
    have "toQValueArray (json_array_kind first) (GoSlice elems) = Inl (Panic ''interface conversion'')"
    proof (elim disjE exE)
      fix x assume f: "first = GoFloat32 x"
      then have "as_float32 e = None" using ne by (intro as_float32_other) simp
      then have "those (map as_float32 elems) = None" by (rule those_map_miss [OF e])
      then show ?thesis using f
        by (simp add: toQValueArray_def assert_slice_def)
    next
      fix x assume f: "first = GoFloat64 x"
      then have "as_float64 e = None" using ne by (intro as_float64_other) simp
      then have "those (map as_float64 elems) = None" by (rule those_map_miss [OF e])
      then show ?thesis using f
        by (simp add: toQValueArray_def assert_slice_def)
    next
      fix x assume f: "first = GoInt16 x"
      then have "as_int16 e = None" using ne by (intro as_int16_other) simp
      then have "those (map as_int16 elems) = None" by (rule those_map_miss [OF e])
      then show ?thesis using f
        by (simp add: toQValueArray_def assert_slice_def)
    next
      fix x assume f: "first = GoInt32 x"
      then have "as_int32 e = None" using ne by (intro as_int32_other) simp
      then have "those (map as_int32 elems) = None" by (rule those_map_miss [OF e])
      then show ?thesis using f
        by (simp add: toQValueArray_def assert_slice_def)
    next
      fix x assume f: "first = GoInt64 x"
      then have "as_int64 e = None" using ne by (intro as_int64_other) simp
      then have "those (map as_int64 elems) = None" by (rule those_map_miss [OF e])
      then show ?thesis using f
        by (simp add: toQValueArray_def assert_slice_def)
    next
      fix x assume f: "first = GoString x"
      then have "as_string e = None" using ne by (intro as_string_other) simp
      then have "those (map as_string elems) = None" by (rule those_map_miss [OF e])
      then show ?thesis using f
        by (simp add: toQValueArray_def assert_slice_def)
    qed
    then show "toQValue L QValueKindJSON (PInterface (Some (GoString txt))) =
              Inl (Panic ''interface conversion'')"
      unfolding T .
  qed
  show ?thesis
    using empty f32 f64 i16 i32 i64 str mis by blast
qed

theorem json_array_reclassified_witness:
  "strings_HasPrefix ''[1.5,2]'' ''[''
   \<and> json_Unmarshal libs0 ''[1.5,2]'' = Some (map GoFloat64 [0x3FF8000000000000, 0x4000000000000000])
   \<and> toQValue libs0 QValueKindJSON (PInterface (Some (GoString ''[1.5,2]''))) =
        Inr \<lparr> Kind = QValueKindArrayFloat64,
               Value = GoSliceFloat64 [0x3FF8000000000000, 0x4000000000000000] \<rparr>"
proof -
  have h1: "strings_HasPrefix ''[1.5,2]'' ''[''" by (simp add: strings_HasPrefix_def)
  have h2: "json_Unmarshal libs0 ''[1.5,2]'' = Some (map GoFloat64 [0x3FF8000000000000, 0x4000000000000000])"
    by (simp add: libs0_def)
  have "toQValue libs0 QValueKindJSON (PInterface (Some (GoString ''[1.5,2]''))) =
        Inr \<lparr> Kind = QValueKindArrayFloat64,
               Value = GoSliceFloat64 [0x3FF8000000000000, 0x4000000000000000] \<rparr>"
    using json_array_reclassified [OF h1 h2] by blast
  then show ?thesis using h1 h2 by blast
qed

text \<open>
  The claim as written fails on the empty array: the test \<open>len(v) > 0\<close> sends it to the
  final return of the case, with the JSON kind and the text \<open>[]\<close>, not to the array of
  strings.
\<close>

theorem json_empty_array_counterexample:
  "toQValue libs0 QValueKindJSON (PInterface (Some (GoString ''[]''))) =
     Inr \<lparr> Kind = QValueKindJSON, Value = GoString ''[]'' \<rparr>
   \<and> toQValue libs0 QValueKindJSON (PInterface (Some (GoString ''[]''))) \<noteq>
     Inr \<lparr> Kind = QValueKindArrayString, Value = GoSliceString [] \<rparr>"
  by (simp add: toQValue_def toQValue_switch_def toQValue_JSON_def strings_HasPrefix_def libs0_def)


lemma length_hex_Encode: "length (hex_Encode bs) = 2 * length bs"
  by (induction bs) (simp_all add: hex_Encode_def)

lemma uuid_String_shape:
  assumes "length bs = 16"
  shows "length (uuid_String bs) = 36
         \<and> uuid_String bs ! 8 = CHR ''-'' \<and> uuid_String bs ! 13 = CHR ''-''
         \<and> uuid_String bs ! 18 = CHR ''-'' \<and> uuid_String bs ! 23 = CHR ''-''"
  using assms by (simp add: uuid_String_def length_hex_Encode nth_append)


end
